theory Spec2Isabelle
  imports Complex_Main "HOL-Library.Signed_Division"
begin

section \<open>Data model\<close>

text \<open>
  The floating point types \<^verbatim>\<open>FLOAT\<close> and \<^verbatim>\<open>DOUBLE\<close> are modelled by the reals, so every
  statement below is about exact arithmetic. A fixed-size array \<^verbatim>\<open>FLOAT r[ndim]\<close> is a
  function from the index to the component; the particle array \<^verbatim>\<open>sphdata\<close> is a function
  from the (C \<^verbatim>\<open>int\<close>) index to the particle, so that a store at any index is visible.
\<close>

type_synonym vec = "nat \<Rightarrow> real"

text \<open>The ghost kind tags compared against \<^verbatim>\<open>itype\<close> in \<^verbatim>\<open>Ghosts.cpp\<close>.\<close>

datatype ghosttype =
    nonghost
  | x_lhs_periodic | x_rhs_periodic | y_lhs_periodic | y_rhs_periodic
  | z_lhs_periodic | z_rhs_periodic
  | x_lhs_mirror | x_rhs_mirror | y_lhs_mirror | y_rhs_mirror
  | z_lhs_mirror | z_rhs_mirror

text \<open>The fields of \<^verbatim>\<open>SphParticle<ndim>\<close> that the modelled routines read or write.\<close>

record SphParticle =
  active :: bool
  potmin :: bool
  iorig :: int
  itype :: ghosttype
  level :: int
  levelneib :: int
  sinkid :: int
  r :: vec
  v :: vec
  a :: vec
  agrav :: vec
  m :: real
  h :: real
  invh :: real
  hfactor :: real
  hrangesqd :: real
  rho :: real
  invrho :: real
  invomega :: real
  zeta :: real
  chi :: real
  q :: real
  invq :: real
  u :: real
  dudt :: real
  sound :: real
  pfactor :: real
  div_v :: real
  gpot :: real
  alpha :: real

record DomainBox =
  x_boundary_lhs :: string
  x_boundary_rhs :: string
  y_boundary_lhs :: string
  y_boundary_rhs :: string
  z_boundary_lhs :: string
  z_boundary_rhs :: string
  boxmin :: vec
  boxmax :: vec
  boxsize :: vec

text \<open>The counters and the particle array of the \<^verbatim>\<open>Sph<ndim>\<close> object.\<close>

record Sph =
  Nsph :: int
  Nghost :: int
  NPeriodicGhost :: int
  Nghostmax :: int
  Nsphmax :: int
  Ntot :: int
  sphdata :: "int \<Rightarrow> SphParticle"

text \<open>
  Modelled from the spec: \<^verbatim>\<open>ExceptionHandler::raise\<close> is declared in \<^verbatim>\<open>Exception.h\<close> but its
  body is not among the sources. The specification says that the error sink terminates the
  process or throws an error object to the host, so a call never returns to the caller:
  the routine ends with the error value.
\<close>

datatype error = GandalfError string

definition ebind :: "error + 'a \<Rightarrow> ('a \<Rightarrow> error + 'b) \<Rightarrow> error + 'b" where
  "ebind x f = (case x of Inl e \<Rightarrow> Inl e | Inr y \<Rightarrow> f y)"

section \<open>Ghosts.cpp: periodic and mirror ghosts\<close>

text \<open>\<^verbatim>\<open>PeriodicGhosts::CreateGhostParticle\<close>.\<close>

definition CreateGhostParticle ::
  "int \<Rightarrow> nat \<Rightarrow> real \<Rightarrow> real \<Rightarrow> Sph \<Rightarrow> ghosttype \<Rightarrow> error + Sph" where
  "CreateGhostParticle i k rk vk sph ghosttype =
     (if Nghost sph > Nghostmax sph
      then Inl (GandalfError ''Not enough memory for new ghost'')
      else
        let g = sphdata sph i;
            g = g\<lparr>r := (r g)(k := rk)\<rparr>;
            g = g\<lparr>v := (v g)(k := vk)\<rparr>;
            g = g\<lparr>active := False\<rparr>;
            g = g\<lparr>itype := ghosttype\<rparr>;
            g = g\<lparr>iorig := i\<rparr>
        in Inr (sph\<lparr>sphdata := (sphdata sph)(Nsph sph + Nghost sph := g),
                    Nghost := Nghost sph + 1\<rparr>))"

text \<open>
  The body of one of the three per-dimension loops of
  \<^verbatim>\<open>PeriodicGhosts::SearchGhostParticles\<close> at particle \<open>i\<close>. The three loops of the source
  are the same text for \<open>k = 0, 1, 2\<close> with the boundary strings and kind tags of that
  dimension; \<open>gr\<close> is \<^verbatim>\<open>ghost_range\<close> and \<open>kernrange\<close> is
  \<^verbatim>\<open>sph->kernp->kernrange*sph->kernfac\<close>.
\<close>

definition ghost_search_step ::
  "real \<Rightarrow> DomainBox \<Rightarrow> real \<Rightarrow> real \<Rightarrow> nat \<Rightarrow> string \<Rightarrow> string \<Rightarrow>
   ghosttype \<Rightarrow> ghosttype \<Rightarrow> ghosttype \<Rightarrow> ghosttype \<Rightarrow> int \<Rightarrow> Sph \<Rightarrow> error + Sph" where
  "ghost_search_step tghost simbox gr kernrange k lhs rhs lhs_per lhs_mir rhs_per rhs_mir i sph =
     ebind
       (if r (sphdata sph i) k + min 0 (v (sphdata sph i) k * tghost)
             < boxmin simbox k + gr * kernrange * h (sphdata sph i)
        then
          ebind
            (if lhs = ''periodic''
             then CreateGhostParticle i k (r (sphdata sph i) k + boxsize simbox k)
                    (v (sphdata sph i) k) sph lhs_per
             else Inr sph)
            (\<lambda>sph. if lhs = ''mirror''
                    then CreateGhostParticle i k (2 * boxmin simbox k - r (sphdata sph i) k)
                           (- v (sphdata sph i) k) sph lhs_mir
                    else Inr sph)
        else Inr sph)
       (\<lambda>sph.
          if r (sphdata sph i) k + max 0 (v (sphdata sph i) k * tghost)
               > boxmax simbox k - gr * kernrange * h (sphdata sph i)
          then
            ebind
              (if rhs = ''periodic''
               then CreateGhostParticle i k (r (sphdata sph i) k - boxsize simbox k)
                      (v (sphdata sph i) k) sph rhs_per
               else Inr sph)
              (\<lambda>sph. if rhs = ''mirror''
                      then CreateGhostParticle i k (2 * boxmax simbox k - r (sphdata sph i) k)
                             (- v (sphdata sph i) k) sph rhs_mir
                      else Inr sph)
          else Inr sph)"

text \<open>The loop \<^verbatim>\<open>for (i=0; i<sph->Ntot; i++)\<close>; a raised error ends it.\<close>

fun ghost_search_loop :: "(int \<Rightarrow> Sph \<Rightarrow> error + Sph) \<Rightarrow> int list \<Rightarrow> Sph \<Rightarrow> error + Sph" where
  "ghost_search_loop body [] sph = Inr sph"
| "ghost_search_loop body (i # is) sph = ebind (body i sph) (ghost_search_loop body is)"

definition ghost_search_dim ::
  "real \<Rightarrow> DomainBox \<Rightarrow> real \<Rightarrow> real \<Rightarrow> nat \<Rightarrow> string \<Rightarrow> string \<Rightarrow>
   ghosttype \<Rightarrow> ghosttype \<Rightarrow> ghosttype \<Rightarrow> ghosttype \<Rightarrow> Sph \<Rightarrow> error + Sph" where
  "ghost_search_dim tghost simbox gr kernrange k lhs rhs lhs_per lhs_mir rhs_per rhs_mir sph =
     ebind
       (ghost_search_loop
          (ghost_search_step tghost simbox gr kernrange k lhs rhs lhs_per lhs_mir rhs_per rhs_mir)
          (map int [0..<nat (Ntot sph)]) sph)
       (\<lambda>sph. Inr (sph\<lparr>Ntot := Nsph sph + Nghost sph\<rparr>))"

text \<open>\<^verbatim>\<open>PeriodicGhosts::SearchGhostParticles\<close>.\<close>

definition SearchGhostParticles ::
  "nat \<Rightarrow> real \<Rightarrow> real \<Rightarrow> real \<Rightarrow> DomainBox \<Rightarrow> Sph \<Rightarrow> error + Sph" where
  "SearchGhostParticles ndim gr kernrange tghost simbox sph0 =
     (let sph = sph0\<lparr>Nghost := 0, NPeriodicGhost := 0,
                     Nghostmax := Nsphmax sph0 - Nsph sph0, Ntot := Nsph sph0\<rparr>
      in
      if x_boundary_lhs simbox = ''open'' \<and> x_boundary_rhs simbox = ''open'' \<and>
         y_boundary_lhs simbox = ''open'' \<and> y_boundary_rhs simbox = ''open'' \<and>
         z_boundary_lhs simbox = ''open'' \<and> z_boundary_rhs simbox = ''open''
      then Inr sph
      else
        ebind
          (if \<not> (x_boundary_lhs simbox = ''open'' \<and> x_boundary_rhs simbox = ''open'')
           then ghost_search_dim tghost simbox gr kernrange 0
                  (x_boundary_lhs simbox) (x_boundary_rhs simbox)
                  x_lhs_periodic x_lhs_mirror x_rhs_periodic x_rhs_mirror sph
           else Inr sph)
       (\<lambda>sph. ebind
          (if ndim \<ge> 2 \<and> \<not> (y_boundary_lhs simbox = ''open'' \<and> y_boundary_rhs simbox = ''open'')
           then ghost_search_dim tghost simbox gr kernrange 1
                  (y_boundary_lhs simbox) (y_boundary_rhs simbox)
                  y_lhs_periodic y_lhs_mirror y_rhs_periodic y_rhs_mirror sph
           else Inr sph)
       (\<lambda>sph. ebind
          (if ndim = 3 \<and> \<not> (z_boundary_lhs simbox = ''open'' \<and> z_boundary_rhs simbox = ''open'')
           then ghost_search_dim tghost simbox gr kernrange 2
                  (z_boundary_lhs simbox) (z_boundary_rhs simbox)
                  z_lhs_periodic z_lhs_mirror z_rhs_periodic z_rhs_mirror sph
           else Inr sph)
       (\<lambda>sph.
          if Ntot sph > Nsphmax sph
          then Inl (GandalfError ''Not enough memory for ghost particles'')
          else Inr (sph\<lparr>NPeriodicGhost := Nghost sph\<rparr>)))))"

text \<open>
  \<^verbatim>\<open>PeriodicGhosts::CopySphDataToGhosts\<close>: the body of the loop over the ghost counter
  \<open>j\<close>, and the loop.
\<close>

definition refresh_ghost :: "DomainBox \<Rightarrow> int \<Rightarrow> Sph \<Rightarrow> Sph" where
  "refresh_ghost simbox j sph =
     (let i = Nsph sph + j;
          iorig' = iorig (sphdata sph i);
          itype' = itype (sphdata sph i);
          g = sphdata sph iorig';
          g = g\<lparr>iorig := iorig'\<rparr>;
          g = g\<lparr>itype := itype'\<rparr>;
          g = g\<lparr>active := False\<rparr>;
          g = (if itype' = x_lhs_periodic then g\<lparr>r := (r g)(0 := r g 0 + boxsize simbox 0)\<rparr>
               else if itype' = x_rhs_periodic then g\<lparr>r := (r g)(0 := r g 0 - boxsize simbox 0)\<rparr>
               else if itype' = y_lhs_periodic then g\<lparr>r := (r g)(1 := r g 1 + boxsize simbox 1)\<rparr>
               else if itype' = y_rhs_periodic then g\<lparr>r := (r g)(1 := r g 1 - boxsize simbox 1)\<rparr>
               else g)
      in sph\<lparr>sphdata := (sphdata sph)(i := g)\<rparr>)"

definition CopySphDataToGhosts :: "DomainBox \<Rightarrow> Sph \<Rightarrow> Sph" where
  "CopySphDataToGhosts simbox sph =
     fold (refresh_ghost simbox) (map int [0..<nat (NPeriodicGhost sph)]) sph"

text \<open>
  \<^verbatim>\<open>MPIGhosts::SearchGhostParticles\<close> and \<^verbatim>\<open>MPIGhosts::CopySphDataToGhosts\<close>. The array
  and the count that \<^verbatim>\<open>MpiControl::SendReceiveGhosts\<close> and
  \<^verbatim>\<open>MpiControl::UpdateGhostParticles\<close> hand back come from the other nodes; they are the
  arguments \<open>ghost_array\<close> and \<open>Nmpighosts\<close>.
\<close>

definition store_mpi_ghost :: "(int \<Rightarrow> SphParticle) \<Rightarrow> int \<Rightarrow> int \<Rightarrow> Sph \<Rightarrow> Sph" where
  "store_mpi_ghost ghost_array start_index j sph =
     (let i = start_index + j;
          main_array = (sphdata sph)(i := ghost_array j);
          main_array = main_array(i := (main_array i)\<lparr>active := False\<rparr>)
      in sph\<lparr>sphdata := main_array\<rparr>)"

definition MPI_SearchGhostParticles :: "(int \<Rightarrow> SphParticle) \<Rightarrow> int \<Rightarrow> Sph \<Rightarrow> error + Sph" where
  "MPI_SearchGhostParticles ghost_array Nmpighosts sph0 =
     (if Ntot sph0 + Nmpighosts > Nsphmax sph0 then Inl (GandalfError '''')
      else
        let start_index = Nsph sph0 + NPeriodicGhost sph0;
            sph = fold (store_mpi_ghost ghost_array start_index)
                    (map int [0..<nat Nmpighosts]) sph0;
            sph = sph\<lparr>Nghost := Nghost sph + Nmpighosts\<rparr>;
            sph = sph\<lparr>Ntot := Ntot sph + Nmpighosts\<rparr>
        in if Nghost sph > Nghostmax sph \<or> Ntot sph > Nsphmax sph
           then Inl (GandalfError '''')
           else Inr sph)"

definition MPI_CopySphDataToGhosts :: "(int \<Rightarrow> SphParticle) \<Rightarrow> int \<Rightarrow> Sph \<Rightarrow> Sph" where
  "MPI_CopySphDataToGhosts ghost_array Nmpighosts sph =
     (let start_index = Nsph sph + NPeriodicGhost sph
      in fold (store_mpi_ghost ghost_array start_index) (map int [0..<nat Nmpighosts]) sph)"

text \<open>Every entry of the ghost range \<^verbatim>\<open>[Nsph, Nsph + Nghost)\<close> is inactive.\<close>

definition ghosts_inactive :: "Sph \<Rightarrow> bool" where
  "ghosts_inactive sph =
     (\<forall>i. Nsph sph \<le> i \<and> i < Nsph sph + Nghost sph \<longrightarrow> \<not> active (sphdata sph i))"

text \<open>
  Concrete inputs: one real particle close to the lower z face of a unit box that is
  periodic in z and open in x and y, in a particle array with room for three ghosts
  (\<open>sphz\<close>) and in one with no room at all (\<open>sph_full\<close>, where \<^verbatim>\<open>Nsphmax = Nsph\<close>).
  \<open>ghostz\<close> is the ghost that \<^verbatim>\<open>SearchGhostParticles\<close> creates for it and \<open>sphz_g\<close>
  the state after the search.
\<close>

definition p0 :: SphParticle where
  "p0 = \<lparr>active = True, potmin = False, iorig = 0, itype = nonghost, level = 0, levelneib = 0,
     sinkid = - 1, r = (\<lambda>_. 1/20), v = (\<lambda>_. 0), a = (\<lambda>_. 0), agrav = (\<lambda>_. 0), m = 1,
     h = 1/10, invh = 10, hfactor = 10, hrangesqd = 1/25, rho = 1, invrho = 1, invomega = 1,
     zeta = 0, chi = 0, q = 0, invq = 0, u = 1, dudt = 0, sound = 1, pfactor = 1, div_v = 0,
     gpot = 0, alpha = 1\<rparr>"

definition boxz :: DomainBox where
  "boxz = \<lparr>x_boundary_lhs = ''open'', x_boundary_rhs = ''open'',
           y_boundary_lhs = ''open'', y_boundary_rhs = ''open'',
           z_boundary_lhs = ''periodic'', z_boundary_rhs = ''periodic'',
           boxmin = (\<lambda>_. 0), boxmax = (\<lambda>_. 1), boxsize = (\<lambda>_. 1)\<rparr>"

definition sphz :: Sph where
  "sphz = \<lparr>Nsph = 1, Nghost = 0, NPeriodicGhost = 0, Nghostmax = 3, Nsphmax = 4, Ntot = 1,
           sphdata = (\<lambda>_. p0)\<rparr>"

definition sph_full :: Sph where
  "sph_full = \<lparr>Nsph = 1, Nghost = 0, NPeriodicGhost = 0, Nghostmax = 0, Nsphmax = 1, Ntot = 1,
           sphdata = (\<lambda>_. p0)\<rparr>"

definition ghostz :: SphParticle where
  "ghostz = p0\<lparr>r := (r p0)(2 := 21/20), v := (v p0)(2 := 0), active := False,
              itype := z_lhs_periodic, iorig := 0\<rparr>"

definition sphz_g :: Sph where
  "sphz_g = \<lparr>Nsph = 1, Nghost = 1, NPeriodicGhost = 1, Nghostmax = 3, Nsphmax = 4, Ntot = 2,
           sphdata = (\<lambda>_. p0)(1 := ghostz)\<rparr>"

section \<open>Loops over the dimension\<close>

text \<open>
  \<^verbatim>\<open>for (k=0; k<n; k++) x[k] = g(k, x)\<close> on an array \<open>x\<close>, and the routine
  \<^verbatim>\<open>DotProduct(v1, v2, ndim)\<close> of \<^verbatim>\<open>InlineFuncs.h\<close> (the sum of the products of the first
  \<open>ndim\<close> components).
\<close>

definition for_k :: "nat \<Rightarrow> (nat \<Rightarrow> vec \<Rightarrow> real) \<Rightarrow> vec \<Rightarrow> vec" where
  "for_k n g x = fold (\<lambda>k x. x(k := g k x)) [0..<n] x"

definition DotProduct :: "vec \<Rightarrow> vec \<Rightarrow> nat \<Rightarrow> real" where
  "DotProduct v1 v2 ndim = fold (\<lambda>k dp. dp + v1 k * v2 k) [0..<ndim] 0"

section \<open>NbodyLeapfrogDKD.cpp\<close>

text \<open>
  The fields of \<^verbatim>\<open>NbodyParticle<ndim>\<close> used by the integrator. The source names
  \<^verbatim>\<open>r\<close>, \<^verbatim>\<open>v\<close>, \<^verbatim>\<open>a\<close> and \<^verbatim>\<open>active\<close> are taken by the fluid particle, so the star's
  fields carry the prefix \<open>star_\<close>.
\<close>

record NbodyParticle =
  star_active :: bool
  nstep :: int
  nlast :: int
  star_r :: vec
  star_v :: vec
  star_a :: vec
  r0 :: vec
  v0 :: vec
  a0 :: vec
  star_m :: real
  star_h :: real

text \<open>
  \<^verbatim>\<open>NbodyLeapfrogDKD::AdvanceParticles\<close>: the body of the loop over the stars, and the
  loop. \<^verbatim>\<open>nstep/2\<close> is C integer division, which truncates towards zero.
\<close>

definition advance_star :: "nat \<Rightarrow> nat \<Rightarrow> int \<Rightarrow> real \<Rightarrow> NbodyParticle \<Rightarrow> NbodyParticle" where
  "advance_star ndim vdim n timestep star =
     (let nstep' = nstep star;
          dn = n - nlast star;
          dt = timestep * real_of_int dn;
          star = star\<lparr>star_r := for_k ndim (\<lambda>k x. r0 star k + v0 star k * dt) (star_r star)\<rparr>;
          star = star\<lparr>star_v := for_k vdim (\<lambda>k x. v0 star k + a0 star k * dt) (star_v star)\<rparr>
      in if dn = nstep' sdiv 2 then star\<lparr>star_active := True\<rparr>
         else star\<lparr>star_active := False\<rparr>)"

definition AdvanceParticles ::
  "nat \<Rightarrow> nat \<Rightarrow> int \<Rightarrow> int \<Rightarrow> (int \<Rightarrow> NbodyParticle) \<Rightarrow> real \<Rightarrow> (int \<Rightarrow> NbodyParticle)" where
  "AdvanceParticles ndim vdim n N star timestep =
     fold (\<lambda>i star. star(i := advance_star ndim vdim n timestep (star i)))
       (map int [0..<nat N]) star"

section \<open>GradhSph.cpp: pair forces\<close>

datatype aviscenum = noneav | mon97 | mon97td

datatype acondenum = noneac | wadsley2008 | price2008

text \<open>
  The settings of the \<^verbatim>\<open>Sph<ndim>\<close> object read by the routines below.
  \<^verbatim>\<open>small_number\<close> is a constant of \<^verbatim>\<open>Constants.h\<close>, which is not among the sources; it
  is kept as a setting.
\<close>

record SphSettings =
  avisc :: aviscenum
  acond :: acondenum
  alpha_visc :: real
  beta_visc :: real
  h_fac :: real
  h_converge :: real
  hmin_sink :: real
  create_sinks :: int
  small_number :: real
  kernfacsqd :: real

text \<open>
  The kernel and the equation of state are collaborators of the SPH engine (their classes
  are not among the sources, apart from the isothermal closure): they enter as records of
  functions.
\<close>

record SphKernel =
  w0_s2 :: "real \<Rightarrow> real"
  womega_s2 :: "real \<Rightarrow> real"
  wzeta_s2 :: "real \<Rightarrow> real"
  w1 :: "real \<Rightarrow> real"
  wgrav :: "real \<Rightarrow> real"
  wpot :: "real \<Rightarrow> real"
  kernrangesqd :: real

record EOS =
  Pressure :: "SphParticle \<Rightarrow> real"
  SoundSpeed :: "SphParticle \<Rightarrow> real"
  SpecificInternalEnergy :: "SphParticle \<Rightarrow> real"

text \<open>\<^verbatim>\<open>IsothermalEOS.cpp\<close>: the isothermal closure.\<close>

definition Isothermal :: "real \<Rightarrow> real \<Rightarrow> real \<Rightarrow> EOS" where
  "Isothermal gammam1 temp0 mu_bar =
     \<lparr>Pressure = (\<lambda>part. gammam1 * rho part * u part),
      SoundSpeed = (\<lambda>part. sqrt (gammam1 * u part)),
      SpecificInternalEnergy = (\<lambda>part. temp0 / gammam1 / mu_bar)\<rparr>"

text \<open>
  The signal speed of the fixed-alpha viscosity as each routine computes it:
  line 308 of \<^verbatim>\<open>ComputeSphHydroForces\<close> and line 424 of \<^verbatim>\<open>ComputeSphHydroGravForces\<close>.
\<close>

definition vsignal_hydro :: "SphSettings \<Rightarrow> SphParticle \<Rightarrow> SphParticle \<Rightarrow> real \<Rightarrow> real" where
  "vsignal_hydro prm parti neibj dvdr =
     sound parti + sound neibj - beta_visc prm * alpha_visc prm * dvdr"

definition vsignal_hydrograv :: "SphSettings \<Rightarrow> SphParticle \<Rightarrow> SphParticle \<Rightarrow> real \<Rightarrow> real" where
  "vsignal_hydrograv prm parti neibj dvdr =
     sound parti + sound neibj - beta_visc prm * dvdr"

text \<open>
  The artificial conductivity block, which is the same text in both routines. The state
  of a pair is the auxiliary pressure \<open>paux\<close> and the two particles; \<open>parti\<close> and
  \<open>neibpart[j]\<close> are distinct objects.
\<close>

definition conductivity ::
  "SphSettings \<Rightarrow> EOS \<Rightarrow> real \<Rightarrow> real \<Rightarrow> real \<Rightarrow> real \<Rightarrow>
   SphParticle \<times> SphParticle \<Rightarrow> SphParticle \<times> SphParticle" where
  "conductivity prm eos dvdr wkerni wkernj winvrho pp =
     (let parti = fst pp; neibj = snd pp in
      if acond prm = wadsley2008 then
        let uaux = 0.5 * dvdr * (u neibj - u parti) *
                     (invrho parti * wkerni + invrho neibj * wkernj);
            parti = parti\<lparr>dudt := dudt parti + m neibj * uaux\<rparr>;
            neibj = neibj\<lparr>dudt := dudt neibj - m parti * uaux\<rparr>
        in (parti, neibj)
      else if acond prm = price2008 then
        let vsignal = sqrt (\<bar>Pressure eos parti - Pressure eos neibj\<bar> * 0.5 *
                              (invrho parti + invrho neibj));
            parti = parti\<lparr>dudt := dudt parti +
                       0.5 * m neibj * vsignal * (u parti - u neibj) * winvrho\<rparr>;
            neibj = neibj\<lparr>dudt := dudt neibj -
                       0.5 * m parti * vsignal * (u parti - u neibj) * winvrho\<rparr>
        in (parti, neibj)
      else (parti, neibj))"

text \<open>
  The dissipation block of \<^verbatim>\<open>ComputeSphHydroForces\<close> (lines 299 to 340), entered for
  approaching pairs.
\<close>

definition hydro_dissipation ::
  "SphSettings \<Rightarrow> EOS \<Rightarrow> real \<Rightarrow> real \<Rightarrow> real \<Rightarrow>
   real \<times> SphParticle \<times> SphParticle \<Rightarrow> real \<times> SphParticle \<times> SphParticle" where
  "hydro_dissipation prm eos dvdr wkerni wkernj st =
     (let paux = fst st; parti = fst (snd st); neibj = snd (snd st) in
      if dvdr < 0 then
        let winvrho = 0.25 * (wkerni + wkernj) * (invrho parti + invrho neibj);
            st =
              (if avisc prm = mon97 then
                 let vsignal = vsignal_hydro prm parti neibj dvdr;
                     paux = paux - alpha_visc prm * vsignal * dvdr * winvrho;
                     uaux = 0.5 * alpha_visc prm * vsignal * dvdr * dvdr * winvrho;
                     parti = parti\<lparr>dudt := dudt parti - m neibj * uaux\<rparr>;
                     neibj = neibj\<lparr>dudt := dudt neibj - m parti * uaux\<rparr>
                 in (paux, parti, neibj)
               else if avisc prm = mon97td then
                 let alpha_mean = 0.5 * (alpha parti + alpha neibj);
                     vsignal = sound parti + sound neibj - beta_visc prm * alpha_mean * dvdr;
                     paux = paux - alpha_mean * vsignal * dvdr * winvrho;
                     uaux = 0.5 * alpha_mean * vsignal * dvdr * dvdr * winvrho;
                     parti = parti\<lparr>dudt := dudt parti - m neibj * uaux\<rparr>;
                     neibj = neibj\<lparr>dudt := dudt neibj - m parti * uaux\<rparr>
                 in (paux, parti, neibj)
               else (paux, parti, neibj))
        in (fst st, conductivity prm eos dvdr wkerni wkernj winvrho (snd st))
      else (paux, parti, neibj))"

text \<open>The dissipation block of \<^verbatim>\<open>ComputeSphHydroGravForces\<close> (lines 417 to 447).\<close>

definition hydrograv_dissipation ::
  "SphSettings \<Rightarrow> EOS \<Rightarrow> real \<Rightarrow> real \<Rightarrow> real \<Rightarrow>
   real \<times> SphParticle \<times> SphParticle \<Rightarrow> real \<times> SphParticle \<times> SphParticle" where
  "hydrograv_dissipation prm eos dvdr wkerni wkernj st =
     (let paux = fst st; parti = fst (snd st); neibj = snd (snd st) in
      if dvdr < 0 then
        let winvrho = 0.25 * (wkerni + wkernj) * (invrho parti + invrho neibj);
            st =
              (if avisc prm = mon97 then
                 let vsignal = vsignal_hydrograv prm parti neibj dvdr;
                     paux = paux - alpha_visc prm * vsignal * dvdr * winvrho;
                     uaux = 0.5 * alpha_visc prm * vsignal * dvdr * dvdr * winvrho;
                     parti = parti\<lparr>dudt := dudt parti - m neibj * uaux\<rparr>;
                     neibj = neibj\<lparr>dudt := dudt neibj - m parti * uaux\<rparr>
                 in (paux, parti, neibj)
               else (paux, parti, neibj))
        in (fst st, conductivity prm eos dvdr wkerni wkernj winvrho (snd st))
      else (paux, parti, neibj))"

text \<open>
  \<^verbatim>\<open>GradhSph::ComputeSphHydroForces\<close>: the body of the loop over the neighbour counter
  \<open>jj\<close>, on the state made of \<open>parti\<close> and the array \<open>neibpart\<close>, and the loop.
\<close>

definition hydro_pair ::
  "nat \<Rightarrow> SphSettings \<Rightarrow> SphKernel \<Rightarrow> EOS \<Rightarrow> (int \<Rightarrow> int) \<Rightarrow> (int \<Rightarrow> real) \<Rightarrow> (int \<Rightarrow> real) \<Rightarrow>
   int \<Rightarrow> SphParticle \<times> (int \<Rightarrow> SphParticle) \<Rightarrow> SphParticle \<times> (int \<Rightarrow> SphParticle)" where
  "hydro_pair ndim prm kern eos neiblist drmag dr jj st =
     (let parti = fst st; neibpart = snd st;
          j = neiblist jj;
          neibj = neibpart j;
          wkerni = hfactor parti * w1 kern (drmag jj * invh parti);
          wkernj = hfactor neibj * w1 kern (drmag jj * invh neibj);
          draux = for_k ndim (\<lambda>k x. dr (jj * int ndim + int k)) (\<lambda>_. 0);
          dv = for_k ndim (\<lambda>k x. v neibj k - v parti k) (\<lambda>_. 0);
          dvdr = DotProduct dv draux ndim;
          parti = parti\<lparr>div_v := div_v parti - m neibj * dvdr * wkerni\<rparr>;
          neibj = neibj\<lparr>div_v := div_v neibj - m parti * dvdr * wkernj\<rparr>;
          paux = pfactor parti * wkerni + pfactor neibj * wkernj;
          st = hydro_dissipation prm eos dvdr wkerni wkernj (paux, parti, neibj);
          paux = fst st; parti = fst (snd st); neibj = snd (snd st);
          parti = parti\<lparr>a := for_k ndim (\<lambda>k x. x k + m neibj * draux k * paux) (a parti)\<rparr>;
          parti = parti\<lparr>levelneib := max (levelneib parti) (level neibj)\<rparr>;
          neibj = neibj\<lparr>a := for_k ndim (\<lambda>k x. x k - m parti * draux k * paux) (a neibj)\<rparr>;
          neibj = neibj\<lparr>levelneib := max (levelneib neibj) (level parti)\<rparr>
      in (parti, neibpart(j := neibj)))"

definition ComputeSphHydroForces ::
  "nat \<Rightarrow> SphSettings \<Rightarrow> SphKernel \<Rightarrow> EOS \<Rightarrow> int \<Rightarrow> (int \<Rightarrow> int) \<Rightarrow> (int \<Rightarrow> real) \<Rightarrow>
   (int \<Rightarrow> real) \<Rightarrow> SphParticle \<Rightarrow> (int \<Rightarrow> SphParticle) \<Rightarrow> SphParticle \<times> (int \<Rightarrow> SphParticle)" where
  "ComputeSphHydroForces ndim prm kern eos Nneib neiblist drmag dr parti neibpart =
     fold (hydro_pair ndim prm kern eos neiblist drmag dr) (map int [0..<nat Nneib])
       (parti, neibpart)"

text \<open>
  The \<open>k\<close>-component of the sum of \<open>m a\<close> over \<open>parti\<close> and the entries of
  \<open>neibpart\<close> with index in \<open>J\<close>.
\<close>

definition momentum :: "int set \<Rightarrow> nat \<Rightarrow> SphParticle \<times> (int \<Rightarrow> SphParticle) \<Rightarrow> real" where
  "momentum J k st =
     m (fst st) * a (fst st) k + (\<Sum>j\<in>J. m (snd st j) * a (snd st j) k)"

text \<open>
  \<^verbatim>\<open>GradhSph::ComputeSphHydroGravForces\<close>: the body of the loop over \<open>jj\<close> and the
  loop. The local arrays \<^verbatim>\<open>dr\<close> and \<^verbatim>\<open>dv\<close> are not initialised beyond what the loops
  over \<open>k\<close> write.
\<close>

definition hydrograv_pair ::
  "nat \<Rightarrow> SphSettings \<Rightarrow> SphKernel \<Rightarrow> EOS \<Rightarrow> (int \<Rightarrow> int) \<Rightarrow>
   int \<Rightarrow> SphParticle \<times> (int \<Rightarrow> SphParticle) \<Rightarrow> SphParticle \<times> (int \<Rightarrow> SphParticle)" where
  "hydrograv_pair ndim prm kern eos neiblist jj st =
     (let parti = fst st; neibpart = snd st;
          j = neiblist jj;
          neibj = neibpart j;
          dr = for_k ndim (\<lambda>k x. r neibj k - r parti k) (\<lambda>_. 0);
          dv = for_k ndim (\<lambda>k x. v neibj k - v parti k) (\<lambda>_. 0);
          drmag = sqrt (DotProduct dr dr ndim + small_number prm);
          invdrmag = 1 / drmag;
          dr = for_k ndim (\<lambda>k x. x k * invdrmag) dr;
          dvdr = DotProduct dv dr ndim;
          wkerni = hfactor parti * w1 kern (drmag * invh parti);
          wkernj = hfactor neibj * w1 kern (drmag * invh neibj);
          paux = pfactor parti * wkerni + pfactor neibj * wkernj;
          st = hydrograv_dissipation prm eos dvdr wkerni wkernj (paux, parti, neibj);
          paux = fst st; parti = fst (snd st); neibj = snd (snd st);
          parti = parti\<lparr>a := for_k ndim (\<lambda>k x. x k + m neibj * dr k * paux) (a parti)\<rparr>;
          neibj = neibj\<lparr>a := for_k ndim (\<lambda>k x. x k - m parti * dr k * paux) (a neibj)\<rparr>;
          paux = 0.5 * (invh parti * invh parti * wgrav kern (drmag * invh parti) +
                        (zeta parti + chi parti) * hfactor parti * w1 kern (drmag * invh parti) +
                        invh neibj * invh neibj * wgrav kern (drmag * invh neibj) +
                        (zeta neibj + chi neibj) * hfactor neibj * w1 kern (drmag * invh neibj));
          gaux = 0.5 * (invh parti * wpot kern (drmag * invh parti) +
                        invh neibj * wpot kern (drmag * invh neibj));
          parti = parti\<lparr>agrav := for_k ndim (\<lambda>k x. x k + m neibj * dr k * paux) (agrav parti)\<rparr>;
          parti = parti\<lparr>gpot := gpot parti + m neibj * gaux\<rparr>;
          parti = parti\<lparr>div_v := div_v parti - m neibj * dvdr * wkerni\<rparr>;
          parti = parti\<lparr>levelneib := max (levelneib parti) (level neibj)\<rparr>;
          neibj = neibj\<lparr>agrav := for_k ndim (\<lambda>k x. x k - m parti * dr k * paux) (agrav neibj)\<rparr>;
          neibj = neibj\<lparr>gpot := gpot neibj + m parti * gaux\<rparr>;
          neibj = neibj\<lparr>div_v := div_v neibj - m parti * dvdr * wkernj\<rparr>;
          neibj = neibj\<lparr>levelneib := max (levelneib neibj) (level parti)\<rparr>
      in (parti, neibpart(j := neibj)))"

definition ComputeSphHydroGravForces ::
  "nat \<Rightarrow> SphSettings \<Rightarrow> SphKernel \<Rightarrow> EOS \<Rightarrow> int \<Rightarrow> (int \<Rightarrow> int) \<Rightarrow>
   SphParticle \<Rightarrow> (int \<Rightarrow> SphParticle) \<Rightarrow> SphParticle \<times> (int \<Rightarrow> SphParticle)" where
  "ComputeSphHydroGravForces ndim prm kern eos Nneib neiblist parti neibpart =
     fold (hydrograv_pair ndim prm kern eos neiblist) (map int [0..<nat Nneib])
       (parti, neibpart)"

text \<open>\<^verbatim>\<open>GradhSph::ComputePostHydroQuantities\<close>.\<close>

definition ComputePostHydroQuantities :: "EOS \<Rightarrow> SphParticle \<Rightarrow> SphParticle" where
  "ComputePostHydroQuantities eos parti0 =
     (let parti = parti0\<lparr>div_v := div_v parti0 * invrho parti0\<rparr>;
          parti = parti\<lparr>dudt := dudt parti -
                     Pressure eos parti * div_v parti * invrho parti * invomega parti\<rparr>
      in parti)"

text \<open>
  Concrete inputs: a star at the start of its step, fixed-alpha viscosity settings with
  \<open>\<alpha> = 1/2\<close> and \<open>\<beta> = 2\<close>, and a particle with an accumulated velocity divergence.
\<close>

definition star0 :: NbodyParticle where
  "star0 = \<lparr>star_active = False, nstep = 2, nlast = 0, star_r = (\<lambda>_. 0), star_v = (\<lambda>_. 1),
            star_a = (\<lambda>_. 2), r0 = (\<lambda>_. 0), v0 = (\<lambda>_. 1), a0 = (\<lambda>_. 2),
            star_m = 1, star_h = 1\<rparr>"

definition prm1 :: SphSettings where
  "prm1 = \<lparr>avisc = mon97, acond = noneac, alpha_visc = 1/2, beta_visc = 2, h_fac = 1,
           h_converge = 0, hmin_sink = 0, create_sinks = 0, small_number = 1 / 10 ^ 20,
           kernfacsqd = 1\<rparr>"

definition p_post :: SphParticle where
  "p_post = p0\<lparr>div_v := 1, pfactor := 2\<rparr>"

section \<open>GradhSph.cpp and SM2012Sph.cpp: the smoothing length iteration\<close>

text \<open>The part of the \<^verbatim>\<open>Nbody<ndim>\<close> object that \<^verbatim>\<open>ComputeH\<close> reads.\<close>

record Nbody =
  nbody_softening :: int
  Nstar :: int
  stardata :: "int \<Rightarrow> NbodyParticle"

text \<open>
  The local variables of \<^verbatim>\<open>ComputeH\<close> that live across the iterations of the
  \<^verbatim>\<open>do ... while\<close> loop, together with the particle \<^verbatim>\<open>parti\<close>.
\<close>

record hstate =
  iteration :: int
  h_lower_bound :: real
  h_upper_bound :: real
  invhsqd :: real
  part_i :: SphParticle

text \<open>
  How the loop is left: by the \<^verbatim>\<open>break\<close> of the convergence test, by the loop condition
  becoming false, by \<^verbatim>\<open>return 0\<close>, or by the raised error. One pass of the loop body
  either asks for another pass or leaves the loop.
\<close>

datatype hstop = Converged hstate | Exited hstate | ReturnZero hstate | Raised error

datatype hstep = Again hstate | Stop hstop

definition iteration_max :: int where
  "iteration_max = 30"

text \<open>
  \<^verbatim>\<open>pow(x, Sph<ndim>::invndim)\<close> with \<^verbatim>\<open>invndim = 1/ndim\<close> is the \<open>ndim\<close>-th root, and
  \<^verbatim>\<open>pow(x, ndim)\<close> the \<open>ndim\<close>-th power.
\<close>

definition pow_invndim :: "nat \<Rightarrow> real \<Rightarrow> real" where
  "pow_invndim ndim x = root ndim x"

text \<open>
  Lines 118 to 141 of \<^verbatim>\<open>GradhSph::ComputeH\<close>: the sums over the neighbour list for the
  current \<open>h\<close>. The result is the local \<^verbatim>\<open>invhsqd\<close> and the particle.
\<close>

definition gradh_density ::
  "nat \<Rightarrow> SphKernel \<Rightarrow> int \<Rightarrow> (int \<Rightarrow> real) \<Rightarrow> (int \<Rightarrow> real) \<Rightarrow> SphParticle \<Rightarrow> real \<times> SphParticle" where
  "gradh_density ndim kern Nneib m_neib drsqd parti =
     (let parti = parti\<lparr>invh := 1 / h parti\<rparr>;
          parti = parti\<lparr>rho := 0\<rparr>;
          parti = parti\<lparr>invomega := 0\<rparr>;
          parti = parti\<lparr>zeta := 0\<rparr>;
          parti = parti\<lparr>chi := 0\<rparr>;
          parti = parti\<lparr>hfactor := (invh parti) ^ ndim\<rparr>;
          invhsqd = invh parti * invh parti;
          parti = fold (\<lambda>j parti.
                    let ssqd = drsqd j * invhsqd;
                        parti = parti\<lparr>rho := rho parti + m_neib j * w0_s2 kern ssqd\<rparr>;
                        parti = parti\<lparr>invomega := invomega parti +
                                   m_neib j * invh parti * womega_s2 kern ssqd\<rparr>;
                        parti = parti\<lparr>zeta := zeta parti + m_neib j * wzeta_s2 kern ssqd\<rparr>
                    in parti) (map int [0..<nat Nneib]) parti;
          parti = parti\<lparr>rho := rho parti * hfactor parti\<rparr>;
          parti = parti\<lparr>invomega := invomega parti * hfactor parti\<rparr>;
          parti = parti\<lparr>zeta := zeta parti * invhsqd\<rparr>;
          parti = (if rho parti > 0 then parti\<lparr>invrho := 1 / rho parti\<rparr> else parti)
      in (invhsqd, parti))"

text \<open>
  Lines 114 to 138 of \<^verbatim>\<open>SM2012Sph::ComputeH\<close>: as above, with the sum \<open>q\<close> over
  \<^verbatim>\<open>mu\<close>, and without resetting \<open>zeta\<close> and \<open>chi\<close>.
\<close>

definition sm2012_density ::
  "nat \<Rightarrow> SphKernel \<Rightarrow> int \<Rightarrow> (int \<Rightarrow> real) \<Rightarrow> (int \<Rightarrow> real) \<Rightarrow> (int \<Rightarrow> real) \<Rightarrow>
   SphParticle \<Rightarrow> real \<times> SphParticle" where
  "sm2012_density ndim kern Nneib m_neib mu drsqd parti =
     (let parti = parti\<lparr>invh := 1 / h parti\<rparr>;
          parti = parti\<lparr>rho := 0\<rparr>;
          parti = parti\<lparr>invomega := 0\<rparr>;
          parti = parti\<lparr>q := 0\<rparr>;
          parti = parti\<lparr>hfactor := (invh parti) ^ ndim\<rparr>;
          invhsqd = invh parti * invh parti;
          parti = fold (\<lambda>j parti.
                    let ssqd = drsqd j * invhsqd;
                        parti = parti\<lparr>rho := rho parti + m_neib j * w0_s2 kern ssqd\<rparr>;
                        parti = parti\<lparr>invomega := invomega parti +
                                   m_neib j * invh parti * womega_s2 kern ssqd\<rparr>;
                        parti = parti\<lparr>q := q parti + mu j * w0_s2 kern ssqd\<rparr>;
                        parti = parti\<lparr>zeta := zeta parti + m_neib j * wzeta_s2 kern ssqd\<rparr>
                    in parti) (map int [0..<nat Nneib]) parti;
          parti = parti\<lparr>rho := rho parti * hfactor parti\<rparr>;
          parti = parti\<lparr>invomega := invomega parti * hfactor parti\<rparr>;
          parti = parti\<lparr>q := q parti * hfactor parti\<rparr>;
          parti = parti\<lparr>zeta := zeta parti * invhsqd\<rparr>;
          parti = (if rho parti > 0 then parti\<lparr>invrho := 1 / rho parti\<rparr> else parti)
      in (invhsqd, parti))"

text \<open>
  The rest of the loop body is the same text in both routines. \<open>h_pre\<close> counts the
  iteration and evaluates the sums; \<open>h_converged\<close> is the convergence test (the
  \<^verbatim>\<open>break\<close>); \<open>h_assign\<close> is the chain that assigns the next trial \<open>h\<close> (fixed point,
  first midpoint, bisection) or raises; \<open>h_check\<close> is the \<^verbatim>\<open>return 0\<close> test followed by
  the loop condition.
\<close>

definition h_pre :: "(SphParticle \<Rightarrow> real \<times> SphParticle) \<Rightarrow> hstate \<Rightarrow> hstate" where
  "h_pre dens st =
     (let st = st\<lparr>iteration := iteration st + 1\<rparr>;
          d = dens (part_i st)
      in st\<lparr>invhsqd := fst d, part_i := snd d\<rparr>)"

definition h_converged :: "SphSettings \<Rightarrow> nat \<Rightarrow> hstate \<Rightarrow> bool" where
  "h_converged prm ndim st =
     (rho (part_i st) > 0 \<and> h (part_i st) > h_lower_bound st \<and>
      \<bar>h (part_i st) - h_fac prm * pow_invndim ndim (m (part_i st) * invrho (part_i st))\<bar>
        < h_converge prm)"

definition h_assign :: "SphSettings \<Rightarrow> nat \<Rightarrow> hstate \<Rightarrow> error + hstate" where
  "h_assign prm ndim st =
     (let parti = part_i st in
      if iteration st < iteration_max then
        Inr (st\<lparr>part_i := parti\<lparr>h := h_fac prm * pow_invndim ndim (m parti * invrho parti)\<rparr>\<rparr>)
      else if iteration st = iteration_max then
        Inr (st\<lparr>part_i := parti\<lparr>h := 0.5 * (h_lower_bound st + h_upper_bound st)\<rparr>\<rparr>)
      else if iteration st < 5 * iteration_max then
        let st = (if rho parti < small_number prm \<or>
                     rho parti * (h parti) ^ ndim > (h_fac prm) ^ ndim * m parti
                  then st\<lparr>h_upper_bound := h parti\<rparr>
                  else st\<lparr>h_lower_bound := h parti\<rparr>)
        in Inr (st\<lparr>part_i := parti\<lparr>h := 0.5 * (h_lower_bound st + h_upper_bound st)\<rparr>\<rparr>)
      else Inl (GandalfError ''Problem with convergence of h-rho iteration''))"

definition h_check :: "real \<Rightarrow> hstate \<Rightarrow> hstep" where
  "h_check hmax st =
     (if h (part_i st) > hmax then Stop (ReturnZero st)
      else if h (part_i st) > h_lower_bound st \<and> h (part_i st) < h_upper_bound st then Again st
      else Stop (Exited st))"

definition h_body ::
  "(SphParticle \<Rightarrow> real \<times> SphParticle) \<Rightarrow> SphSettings \<Rightarrow> nat \<Rightarrow> real \<Rightarrow> hstate \<Rightarrow> hstep" where
  "h_body dens prm ndim hmax st0 =
     (let st = h_pre dens st0 in
      if h_converged prm ndim st then Stop (Converged st)
      else case h_assign prm ndim st of
             Inl e \<Rightarrow> Stop (Raised e)
           | Inr st \<Rightarrow> h_check hmax st)"

text \<open>The \<^verbatim>\<open>do ... while\<close> loop. It ends because the error is raised at pass 150.\<close>

function h_loop ::
  "(SphParticle \<Rightarrow> real \<times> SphParticle) \<Rightarrow> SphSettings \<Rightarrow> nat \<Rightarrow> real \<Rightarrow> hstate \<Rightarrow> hstop" where
  "h_loop dens prm ndim hmax st =
     (case h_body dens prm ndim hmax st of
        Again st' \<Rightarrow> h_loop dens prm ndim hmax st'
      | Stop res \<Rightarrow> res)"
  by pat_completeness auto
termination
proof (relation "measure (\<lambda>(dens, prm, ndim, hmax, st). nat (5 * iteration_max - iteration st))")
  show "wf (measure (\<lambda>(dens, prm, ndim, hmax, st). nat (5 * iteration_max - iteration st)))"
    by simp
next
  fix dens prm ndim hmax st st'
  assume "h_body dens prm ndim hmax st = Again st'"
  then have "iteration st' = iteration st + 1 \<and> iteration st' < 5 * iteration_max"
    by (auto simp: h_body_def h_pre_def h_assign_def h_check_def Let_def iteration_max_def
             split: if_splits)
  then show "((dens, prm, ndim, hmax, st'), (dens, prm, ndim, hmax, st))
               \<in> measure (\<lambda>(dens, prm, ndim, hmax, st). nat (5 * iteration_max - iteration st))"
    by simp
qed

declare h_loop.simps [simp del]

text \<open>
  The loops over the stars that add up \<open>chi\<close> (lines 218 to 233 of
  \<^verbatim>\<open>GradhSph::ComputeH\<close>): with softening, \<^verbatim>\<open>invhsqd\<close> is set for each star.
\<close>

definition chi_sum :: "nat \<Rightarrow> SphKernel \<Rightarrow> Nbody \<Rightarrow> SphParticle \<Rightarrow> SphParticle" where
  "chi_sum ndim kern nbody parti =
     (if nbody_softening nbody = 1 then
        fold (\<lambda>j parti.
                let invhsqd = (2 / (h parti + star_h (stardata nbody j)))\<^sup>2;
                    dr = for_k ndim (\<lambda>k x. star_r (stardata nbody j) k - r parti k) (\<lambda>_. 0);
                    ssqd = DotProduct dr dr ndim * invhsqd
                in parti\<lparr>chi := chi parti +
                           star_m (stardata nbody j) * invhsqd * wzeta_s2 kern ssqd\<rparr>)
          (map int [0..<nat (Nstar nbody)]) parti
      else
        let invhsqd = 4 * invh parti * invh parti in
        fold (\<lambda>j parti.
                let dr = for_k ndim (\<lambda>k x. star_r (stardata nbody j) k - r parti k) (\<lambda>_. 0);
                    ssqd = DotProduct dr dr ndim * invhsqd
                in parti\<lparr>chi := chi parti +
                           star_m (stardata nbody j) * invhsqd * wzeta_s2 kern ssqd\<rparr>)
          (map int [0..<nat (Nstar nbody)]) parti)"

text \<open>The test for a minimum of the potential among the neighbours (lines 209 to 214).\<close>

definition potmin_test ::
  "SphSettings \<Rightarrow> SphKernel \<Rightarrow> int \<Rightarrow> (int \<Rightarrow> real) \<Rightarrow> (int \<Rightarrow> real) \<Rightarrow> real \<Rightarrow>
   SphParticle \<Rightarrow> SphParticle" where
  "potmin_test prm kern Nneib drsqd gpot_neib ihsqd parti =
     (if create_sinks prm = 1 then
        fold (\<lambda>j parti.
                if gpot_neib j > (1000000001 / 1000000000) * gpot parti \<and>
                   drsqd j * ihsqd < kernrangesqd kern
                then parti\<lparr>potmin := False\<rparr> else parti)
          (map int [0..<nat Nneib]) (parti\<lparr>potmin := True\<rparr>)
      else parti)"

text \<open>
  What \<^verbatim>\<open>GradhSph::ComputeH\<close> does after the loop: the normalisation of the sums and
  the thermal and sink quantities (lines 188 to 234), then the return code (lines 237 to
  239).
\<close>

definition gradh_normalise ::
  "nat \<Rightarrow> SphSettings \<Rightarrow> SphKernel \<Rightarrow> EOS \<Rightarrow> Nbody \<Rightarrow> int \<Rightarrow> (int \<Rightarrow> real) \<Rightarrow>
   (int \<Rightarrow> real) \<Rightarrow> hstate \<Rightarrow> SphParticle" where
  "gradh_normalise ndim prm kern eos nbody Nneib drsqd gpot_neib st =
     (let parti = part_i st;
          invndim = 1 / real ndim;
          parti = parti\<lparr>h := max (h_fac prm * pow_invndim ndim (m parti * invrho parti))
                                (h_lower_bound st)\<rparr>;
          parti = parti\<lparr>invh := 1 / h parti\<rparr>;
          parti = parti\<lparr>hrangesqd := kernfacsqd prm * kernrangesqd kern * h parti * h parti\<rparr>;
          parti = parti\<lparr>invomega := 1 + invndim * h parti * invomega parti * invrho parti\<rparr>;
          parti = parti\<lparr>invomega := 1 / invomega parti\<rparr>;
          parti = parti\<lparr>zeta := - invndim * h parti * zeta parti * invrho parti * invomega parti\<rparr>;
          parti = parti\<lparr>u := SpecificInternalEnergy eos parti\<rparr>;
          parti = parti\<lparr>sound := SoundSpeed eos parti\<rparr>;
          parti = parti\<lparr>hfactor := (invh parti) ^ (ndim + 1)\<rparr>;
          parti = parti\<lparr>pfactor := Pressure eos parti * invrho parti * invrho parti *
                                    invomega parti\<rparr>;
          parti = parti\<lparr>div_v := 0\<rparr>;
          parti = potmin_test prm kern Nneib drsqd gpot_neib (invhsqd st) parti;
          parti = chi_sum ndim kern nbody parti;
          parti = parti\<lparr>chi := - invndim * h parti * chi parti * invrho parti * invomega parti\<rparr>
      in parti)"

definition gradh_finish ::
  "nat \<Rightarrow> SphSettings \<Rightarrow> SphKernel \<Rightarrow> EOS \<Rightarrow> Nbody \<Rightarrow> int \<Rightarrow> real \<Rightarrow> (int \<Rightarrow> real) \<Rightarrow>
   (int \<Rightarrow> real) \<Rightarrow> hstate \<Rightarrow> int \<times> SphParticle" where
  "gradh_finish ndim prm kern eos nbody Nneib hmax drsqd gpot_neib st =
     (let parti = gradh_normalise ndim prm kern eos nbody Nneib drsqd gpot_neib st
      in if h parti \<le> hmax then (1, parti) else (- 1, parti))"

text \<open>The same for \<^verbatim>\<open>SM2012Sph::ComputeH\<close> (lines 180 to 232).\<close>

definition sm2012_normalise ::
  "nat \<Rightarrow> SphSettings \<Rightarrow> SphKernel \<Rightarrow> EOS \<Rightarrow> Nbody \<Rightarrow> int \<Rightarrow> (int \<Rightarrow> real) \<Rightarrow>
   (int \<Rightarrow> real) \<Rightarrow> hstate \<Rightarrow> SphParticle" where
  "sm2012_normalise ndim prm kern eos nbody Nneib drsqd gpot_neib st =
     (let parti = part_i st;
          invndim = 1 / real ndim;
          parti = parti\<lparr>h := max (h_fac prm * pow_invndim ndim (m parti * invrho parti))
                                (h_lower_bound st)\<rparr>;
          parti = parti\<lparr>invh := 1 / h parti\<rparr>;
          parti = parti\<lparr>hrangesqd := kernfacsqd prm * kernrangesqd kern * h parti * h parti\<rparr>;
          parti = parti\<lparr>invomega := 1 + invndim * h parti * invomega parti * invrho parti\<rparr>;
          parti = parti\<lparr>invomega := 1 / invomega parti\<rparr>;
          parti = parti\<lparr>zeta := - invndim * h parti * zeta parti * invrho parti * invomega parti\<rparr>;
          parti = parti\<lparr>invq := 1 / q parti\<rparr>;
          parti = parti\<lparr>u := SpecificInternalEnergy eos parti\<rparr>;
          parti = parti\<lparr>sound := SoundSpeed eos parti\<rparr>;
          parti = parti\<lparr>hfactor := (invh parti) ^ (ndim + 1)\<rparr>;
          parti = parti\<lparr>pfactor := Pressure eos parti * invrho parti * invq parti\<rparr>;
          parti = parti\<lparr>div_v := 0\<rparr>;
          parti = parti\<lparr>dudt := 0\<rparr>;
          parti = potmin_test prm kern Nneib drsqd gpot_neib (invhsqd st) parti;
          parti = chi_sum ndim kern nbody parti;
          parti = parti\<lparr>chi := - invndim * h parti * chi parti * invrho parti * invomega parti\<rparr>
      in parti)"

definition sm2012_finish ::
  "nat \<Rightarrow> SphSettings \<Rightarrow> SphKernel \<Rightarrow> EOS \<Rightarrow> Nbody \<Rightarrow> int \<Rightarrow> real \<Rightarrow> (int \<Rightarrow> real) \<Rightarrow>
   (int \<Rightarrow> real) \<Rightarrow> hstate \<Rightarrow> int \<times> SphParticle" where
  "sm2012_finish ndim prm kern eos nbody Nneib hmax drsqd gpot_neib st =
     (let parti = sm2012_normalise ndim prm kern eos nbody Nneib drsqd gpot_neib st
      in if h parti \<le> hmax then (1, parti) else (- 1, parti))"

text \<open>
  The state on entry to the loop. The local \<^verbatim>\<open>invhsqd\<close> is not initialised in the
  source; the first pass of the loop sets it before it is read.
\<close>

definition gradh_init :: "SphSettings \<Rightarrow> real \<Rightarrow> SphParticle \<Rightarrow> hstate" where
  "gradh_init prm hmax parti =
     \<lparr>iteration = 0,
      h_lower_bound = (if sinkid parti \<noteq> - 1 then hmin_sink prm else 0),
      h_upper_bound = hmax, invhsqd = 0, part_i = parti\<rparr>"

definition sm2012_init :: "real \<Rightarrow> SphParticle \<Rightarrow> hstate" where
  "sm2012_init hmax parti =
     \<lparr>iteration = 0, h_lower_bound = 0, h_upper_bound = hmax, invhsqd = 0, part_i = parti\<rparr>"

text \<open>
  \<^verbatim>\<open>GradhSph::ComputeH\<close> and \<^verbatim>\<open>SM2012Sph::ComputeH\<close>: the error, or the return code with
  the particle as the routine leaves it.
\<close>

definition GradhSph_ComputeH ::
  "nat \<Rightarrow> SphSettings \<Rightarrow> SphKernel \<Rightarrow> EOS \<Rightarrow> Nbody \<Rightarrow> int \<Rightarrow> real \<Rightarrow> (int \<Rightarrow> real) \<Rightarrow>
   (int \<Rightarrow> real) \<Rightarrow> (int \<Rightarrow> real) \<Rightarrow> SphParticle \<Rightarrow> error + int \<times> SphParticle" where
  "GradhSph_ComputeH ndim prm kern eos nbody Nneib hmax m_neib drsqd gpot_neib parti =
     (case h_loop (gradh_density ndim kern Nneib m_neib drsqd) prm ndim hmax
             (gradh_init prm hmax parti) of
        Raised e \<Rightarrow> Inl e
      | ReturnZero st \<Rightarrow> Inr (0, part_i st)
      | Converged st \<Rightarrow> Inr (gradh_finish ndim prm kern eos nbody Nneib hmax drsqd gpot_neib st)
      | Exited st \<Rightarrow> Inr (gradh_finish ndim prm kern eos nbody Nneib hmax drsqd gpot_neib st))"

definition SM2012Sph_ComputeH ::
  "nat \<Rightarrow> SphSettings \<Rightarrow> SphKernel \<Rightarrow> EOS \<Rightarrow> Nbody \<Rightarrow> int \<Rightarrow> real \<Rightarrow> (int \<Rightarrow> real) \<Rightarrow>
   (int \<Rightarrow> real) \<Rightarrow> (int \<Rightarrow> real) \<Rightarrow> (int \<Rightarrow> real) \<Rightarrow> SphParticle \<Rightarrow> error + int \<times> SphParticle" where
  "SM2012Sph_ComputeH ndim prm kern eos nbody Nneib hmax m_neib mu drsqd gpot_neib parti =
     (case h_loop (sm2012_density ndim kern Nneib m_neib mu drsqd) prm ndim hmax
             (sm2012_init hmax parti) of
        Raised e \<Rightarrow> Inl e
      | ReturnZero st \<Rightarrow> Inr (0, part_i st)
      | Converged st \<Rightarrow> Inr (sm2012_finish ndim prm kern eos nbody Nneib hmax drsqd gpot_neib st)
      | Exited st \<Rightarrow> Inr (sm2012_finish ndim prm kern eos nbody Nneib hmax drsqd gpot_neib st))"

text \<open>
  The state after \<open>k\<close> passes of the loop body that each asked for another pass
  (\<open>None\<close> if the loop was left before).
\<close>

fun h_run ::
  "(SphParticle \<Rightarrow> real \<times> SphParticle) \<Rightarrow> SphSettings \<Rightarrow> nat \<Rightarrow> real \<Rightarrow> nat \<Rightarrow> hstate \<Rightarrow>
   hstate option" where
  "h_run dens prm ndim hmax 0 st = Some st"
| "h_run dens prm ndim hmax (Suc k) st =
     (case h_body dens prm ndim hmax st of
        Again st' \<Rightarrow> h_run dens prm ndim hmax k st'
      | Stop res \<Rightarrow> None)"

text \<open>
  Concrete inputs for \<^verbatim>\<open>ComputeH\<close>: a kernel of range 2 that is constant inside its
  support, no stars, and two states of the bisection phase (\<open>st_bisect\<close> with density
  \<open>1\<close>, \<open>st_sparse\<close> with a density below \<^verbatim>\<open>small_number\<close>). \<open>isolated_inv\<close> describes the
  states that the iteration of the particle \<open>p0\<close> goes through when its neighbour list is
  empty and \<open>hmax = 2\<close>.
\<close>

definition kern0 :: SphKernel where
  "kern0 = \<lparr>w0_s2 = (\<lambda>s. if s < 4 then 1 else 0), womega_s2 = (\<lambda>s. 0), wzeta_s2 = (\<lambda>s. 0),
            w1 = (\<lambda>s. if s < 2 then - 1 else 0), wgrav = (\<lambda>s. 0), wpot = (\<lambda>s. 0), kernrangesqd = 4\<rparr>"

definition nbody0 :: Nbody where
  "nbody0 = \<lparr>nbody_softening = 0, Nstar = 0, stardata = (\<lambda>_. star0)\<rparr>"

definition st_bisect :: hstate where
  "st_bisect = \<lparr>iteration = 31, h_lower_bound = 0, h_upper_bound = 4, invhsqd = 1/4,
                part_i = p0\<lparr>h := 2\<rparr>\<rparr>"

definition st_sparse :: hstate where
  "st_sparse = \<lparr>iteration = 31, h_lower_bound = 0, h_upper_bound = 4, invhsqd = 1/4,
                part_i = p0\<lparr>h := 2, rho := 1 / 10 ^ 21\<rparr>\<rparr>"

definition isolated_inv :: "hstate \<Rightarrow> bool" where
  "isolated_inv st =
     (h_lower_bound st = 0 \<and> 0 < h (part_i st) \<and> h (part_i st) \<le> 1 \<and>
      h (part_i st) < h_upper_bound st \<and> h_upper_bound st \<le> 2 \<and>
      m (part_i st) = 1 \<and> invrho (part_i st) = 1 \<and>
      (iteration st < 30 \<longrightarrow> h_upper_bound st = 2))"

section \<open>MpiControl.cpp: the tournament calendar\<close>

text \<open>
  \<^verbatim>\<open>MpiControl::CreateLeagueCalendar\<close>, as executed by rank 0. Teams and turns are
  non-negative C \<^verbatim>\<open>int\<close>s, modelled as naturals; \<^verbatim>\<open>std::vector\<close> is a list, and
  \<^verbatim>\<open>calendar[team][iturn] = x\<close> an update of the inner list. \<open>pairs_turn\<close> is the table
  of one turn: entry 0 is \<^verbatim>\<open>Nturns\<close>, entry \<open>i\<close> is \<^verbatim>\<open>(i+iturn) % (Nmpi-1)\<close>.
\<close>

definition pairs_turn :: "nat \<Rightarrow> nat \<Rightarrow> nat list" where
  "pairs_turn Nmpi iturn =
     fold (\<lambda>i pt. pt[i := (i + iturn) mod (Nmpi - 1)]) [1..<Nmpi]
       ((replicate Nmpi 0)[0 := Nmpi - 1])"

text \<open>The body of the loop over \<^verbatim>\<open>istep\<close>, and the body of the loop over \<^verbatim>\<open>iturn\<close>.\<close>

definition calendar_step :: "nat \<Rightarrow> nat list \<Rightarrow> nat \<Rightarrow> nat list list \<Rightarrow> nat list list" where
  "calendar_step iturn pt istep calendar =
     (let first_team = pt ! istep;
          size_pt = length pt - 1;
          second_team = pt ! (size_pt - istep);
          calendar = calendar[first_team := (calendar ! first_team)[iturn := second_team]];
          calendar = calendar[second_team := (calendar ! second_team)[iturn := first_team]]
      in calendar)"

definition calendar_turn :: "nat \<Rightarrow> nat \<Rightarrow> nat list list \<Rightarrow> nat list list" where
  "calendar_turn Nmpi iturn calendar =
     fold (calendar_step iturn (pairs_turn Nmpi iturn)) [0..<Nmpi div 2] calendar"

text \<open>
  The calendar that rank 0 builds, or the error. The guard of the source is
  \<^verbatim>\<open>if (! Nmpi%2)\<close>, which C reads as \<^verbatim>\<open>(!Nmpi) % 2\<close>: it holds only for
  \<^verbatim>\<open>Nmpi == 0\<close>. Rank \<open>rank\<close> keeps row \<open>rank\<close> of the calendar as \<^verbatim>\<open>my_matches\<close> (rank 0
  copies it, the other ranks receive it).
\<close>

definition CreateLeagueCalendar :: "nat \<Rightarrow> error + nat list list" where
  "CreateLeagueCalendar Nmpi =
     (if (if Nmpi = 0 then (1::nat) else 0) mod 2 \<noteq> 0
      then Inl (GandalfError ''The number of MPI processes must be even!'')
      else
        let Nturns = Nmpi - 1;
            calendar = replicate Nmpi (replicate Nturns 0)
        in Inr (fold (calendar_turn Nmpi) [0..<Nturns] calendar))"

definition my_matches :: "nat list list \<Rightarrow> nat \<Rightarrow> nat list" where
  "my_matches calendar rank = calendar ! rank"

text \<open>
  The opponent of team \<open>x\<close> in turn \<open>t\<close> in closed form, for \<open>M = Nmpi - 1\<close>: team \<open>M\<close>
  meets team \<open>t\<close>, and any other two teams meet when their sum is \<open>2t\<close> modulo \<open>M\<close>.
\<close>

definition opponent :: "nat \<Rightarrow> nat \<Rightarrow> nat \<Rightarrow> nat" where
  "opponent M t x = (if x = M then t else if x = t then M else (2 * t + M - x) mod M)"

text \<open>A calendar has one row per team and one entry per turn in each row.\<close>

definition shape :: "nat \<Rightarrow> nat list list \<Rightarrow> bool" where
  "shape N cal = (length cal = N \<and> (\<forall>x<N. length (cal ! x) = N - 1))"

section \<open>Verification: ghosts\<close>

lemma ebind_Inr_iff: "ebind x f = Inr y \<longleftrightarrow> (\<exists>z. x = Inr z \<and> f z = Inr y)"
  by (cases x) (simp_all add: ebind_def)

lemma CreateGhostParticle_Inr:
  assumes "CreateGhostParticle i k rk vk sph gt = Inr s'"
  shows "\<not> active (sphdata s' (Nsph sph + Nghost sph))"
    and "Nsph s' = Nsph sph" and "Nghost s' = Nghost sph + 1"
    and "x \<noteq> Nsph sph + Nghost sph \<Longrightarrow> sphdata s' x = sphdata sph x"
  using assms by (auto simp: CreateGhostParticle_def Let_def split: if_splits)

lemma CreateGhostParticle_inv:
  assumes "CreateGhostParticle i k rk vk sph gt = Inr s'" "ghosts_inactive sph"
  shows "ghosts_inactive s'"
  unfolding ghosts_inactive_def
proof (intro allI impI)
  fix x assume x: "Nsph s' \<le> x \<and> x < Nsph s' + Nghost s'"
  note c = CreateGhostParticle_Inr[OF assms(1)]
  show "\<not> active (sphdata s' x)"
  proof (cases "x = Nsph sph + Nghost sph")
    case True then show ?thesis using c(1) by simp
  next
    case False
    then have "sphdata s' x = sphdata sph x" by (rule c(4))
    moreover have "Nsph sph \<le> x \<and> x < Nsph sph + Nghost sph" using x False c(2,3) by simp
    ultimately show ?thesis using assms(2) by (simp add: ghosts_inactive_def)
  qed
qed

lemma ghost_search_step_inv:
  assumes "ghost_search_step tg bx gr kr k lhs rhs t1 t2 t3 t4 i sph = Inr s'" "ghosts_inactive sph"
  shows "ghosts_inactive s'"
  using assms unfolding ghost_search_step_def
  by (auto simp: ebind_Inr_iff split: if_splits dest: CreateGhostParticle_inv)

lemma ghost_search_loop_inv:
  assumes "\<And>i s s'. body i s = Inr s' \<Longrightarrow> ghosts_inactive s \<Longrightarrow> ghosts_inactive s'"
  shows "ghost_search_loop body is sph = Inr s' \<Longrightarrow> ghosts_inactive sph \<Longrightarrow> ghosts_inactive s'"
proof (induction "is" arbitrary: sph)
  case Nil then show ?case by simp
next
  case (Cons i "is")
  then show ?case using assms by (auto simp: ebind_Inr_iff)
qed

lemma ghosts_inactive_Ntot: "ghosts_inactive (sph\<lparr>Ntot := n\<rparr>) = ghosts_inactive sph"
  by (simp add: ghosts_inactive_def)

lemma ghost_search_dim_inv:
  assumes "ghost_search_dim tg bx gr kr k lhs rhs t1 t2 t3 t4 sph = Inr s'" "ghosts_inactive sph"
  shows "ghosts_inactive s'"
  using assms unfolding ghost_search_dim_def
  by (auto simp: ghosts_inactive_Ntot ebind_Inr_iff intro: ghost_search_loop_inv[OF ghost_search_step_inv])

lemma ghost_search_stage_inv:
  assumes "(if c then ghost_search_dim tg bx gr kr k lhs rhs t1 t2 t3 t4 sph else Inr sph) = Inr s'"
    and "ghosts_inactive sph"
  shows "ghosts_inactive s'"
  using assms by (cases c) (auto dest: ghost_search_dim_inv)

lemma ebind_InrE:
  assumes "ebind x f = Inr y"
  obtains z where "x = Inr z" and "f z = Inr y"
  using assms by (cases x) (simp_all add: ebind_def)

lemma SearchGhostParticles_inactive:
  assumes "SearchGhostParticles ndim gr kr tg bx sph = Inr s'"
  shows "ghosts_inactive s'"
proof -
  define s0 where "s0 = sph\<lparr>Nghost := 0, NPeriodicGhost := 0,
                            Nghostmax := Nsphmax sph - Nsph sph, Ntot := Nsph sph\<rparr>"
  have i0: "ghosts_inactive s0" by (auto simp: ghosts_inactive_def s0_def)
  have np: "\<And>s n. ghosts_inactive (s\<lparr>NPeriodicGhost := n\<rparr>) = ghosts_inactive s"
    by (simp add: ghosts_inactive_def)
  let ?allopen = "x_boundary_lhs bx = ''open'' \<and> x_boundary_rhs bx = ''open'' \<and>
         y_boundary_lhs bx = ''open'' \<and> y_boundary_rhs bx = ''open'' \<and>
         z_boundary_lhs bx = ''open'' \<and> z_boundary_rhs bx = ''open''"
  let ?st1 = "\<lambda>s. if \<not> (x_boundary_lhs bx = ''open'' \<and> x_boundary_rhs bx = ''open'')
           then ghost_search_dim tg bx gr kr 0 (x_boundary_lhs bx) (x_boundary_rhs bx)
                  x_lhs_periodic x_lhs_mirror x_rhs_periodic x_rhs_mirror s
           else Inr s"
  let ?st2 = "\<lambda>s. if ndim \<ge> 2 \<and> \<not> (y_boundary_lhs bx = ''open'' \<and> y_boundary_rhs bx = ''open'')
           then ghost_search_dim tg bx gr kr 1 (y_boundary_lhs bx) (y_boundary_rhs bx)
                  y_lhs_periodic y_lhs_mirror y_rhs_periodic y_rhs_mirror s
           else Inr s"
  let ?st3 = "\<lambda>s. if ndim = 3 \<and> \<not> (z_boundary_lhs bx = ''open'' \<and> z_boundary_rhs bx = ''open'')
           then ghost_search_dim tg bx gr kr 2 (z_boundary_lhs bx) (z_boundary_rhs bx)
                  z_lhs_periodic z_lhs_mirror z_rhs_periodic z_rhs_mirror s
           else Inr s"
  let ?fin = "\<lambda>s. if Ntot s > Nsphmax s
           then Inl (GandalfError ''Not enough memory for ghost particles'')
           else Inr (s\<lparr>NPeriodicGhost := Nghost s\<rparr>)"
  show ?thesis
  proof (cases ?allopen)
    case True
    then have "s' = s0" using assms by (simp add: SearchGhostParticles_def s0_def)
    then show ?thesis using i0 by simp
  next
    case False
    have "SearchGhostParticles ndim gr kr tg bx sph =
            ebind (?st1 s0) (\<lambda>s. ebind (?st2 s) (\<lambda>s. ebind (?st3 s) ?fin))"
      unfolding SearchGhostParticles_def Let_def s0_def
      by (subst if_not_P[OF False]) (rule refl)
    with assms have "ebind (?st1 s0) (\<lambda>s. ebind (?st2 s) (\<lambda>s. ebind (?st3 s) ?fin)) = Inr s'"
      by simp
    then obtain s1 where 1: "?st1 s0 = Inr s1"
      and e1: "ebind (?st2 s1) (\<lambda>s. ebind (?st3 s) ?fin) = Inr s'"
      by (rule ebind_InrE)
    from e1 obtain s2 where 2: "?st2 s1 = Inr s2" and e2: "ebind (?st3 s2) ?fin = Inr s'"
      by (rule ebind_InrE)
    from e2 obtain s3 where 3: "?st3 s2 = Inr s3" and 4: "?fin s3 = Inr s'"
      by (rule ebind_InrE)
    have "ghosts_inactive s3"
      using ghost_search_stage_inv[OF 3 ghost_search_stage_inv[OF 2 ghost_search_stage_inv[OF 1 i0]]] .
    moreover have "s' = s3\<lparr>NPeriodicGhost := Nghost s3\<rparr>"
      using 4 by (simp split: if_splits)
    ultimately show ?thesis by (simp add: np)
  qed
qed

lemma refresh_ghost_inactive:
  "\<not> active (sphdata (refresh_ghost bx j sph) (Nsph sph + j))"
  "Nsph (refresh_ghost bx j sph) = Nsph sph"
  "\<not> active (sphdata sph x) \<Longrightarrow> \<not> active (sphdata (refresh_ghost bx j sph) x)"
  by (auto simp: refresh_ghost_def Let_def)

lemma fold_refresh_Nsph: "Nsph (fold (refresh_ghost bx) js sph) = Nsph sph"
  by (induction js arbitrary: sph) (simp_all add: refresh_ghost_inactive(2))

lemma fold_refresh_keeps:
  "\<not> active (sphdata sph x) \<Longrightarrow> \<not> active (sphdata (fold (refresh_ghost bx) js sph) x)"
  by (induction js arbitrary: sph) (simp_all add: refresh_ghost_inactive(3))

lemma fold_refresh_inactive:
  "j \<in> set js \<Longrightarrow> \<not> active (sphdata (fold (refresh_ghost bx) js sph) (Nsph sph + j))"
proof (induction js arbitrary: sph)
  case Nil then show ?case by simp
next
  case (Cons j' js)
  show ?case
  proof (cases "j = j'")
    case True
    then show ?thesis using fold_refresh_keeps[OF refresh_ghost_inactive(1)] by simp
  next
    case False
    then have "j \<in> set js" using Cons.prems by simp
    from Cons.IH[OF this, of "refresh_ghost bx j' sph"] show ?thesis
      by (simp add: refresh_ghost_inactive(2))
  qed
qed

lemma CopySphDataToGhosts_inactive:
  assumes "0 \<le> j" "j < NPeriodicGhost sph"
  shows "\<not> active (sphdata (CopySphDataToGhosts bx sph) (Nsph sph + j))"
proof -
  have "j \<in> set (map int [0..<nat (NPeriodicGhost sph)])"
    using assms by (auto simp: image_iff intro!: bexI[of _ "nat j"])
  then show ?thesis unfolding CopySphDataToGhosts_def by (rule fold_refresh_inactive)
qed

lemma store_mpi_ghost_facts:
  "\<not> active (sphdata (store_mpi_ghost ga st j sph) (st + j))"
  "\<not> active (sphdata sph x) \<Longrightarrow> \<not> active (sphdata (store_mpi_ghost ga st j sph) x)"
  by (auto simp: store_mpi_ghost_def Let_def)

lemma fold_store_keeps:
  "\<not> active (sphdata sph x) \<Longrightarrow> \<not> active (sphdata (fold (store_mpi_ghost ga st) js sph) x)"
  by (induction js arbitrary: sph) (simp_all add: store_mpi_ghost_facts(2))

lemma fold_store_inactive:
  "j \<in> set js \<Longrightarrow> \<not> active (sphdata (fold (store_mpi_ghost ga st) js sph) (st + j))"
proof (induction js arbitrary: sph)
  case Nil then show ?case by simp
next
  case (Cons j' js)
  show ?case
  proof (cases "j = j'")
    case True
    then show ?thesis using fold_store_keeps[OF store_mpi_ghost_facts(1)] by simp
  next
    case False
    then have "j \<in> set js" using Cons.prems by simp
    from Cons.IH[OF this] show ?thesis by simp
  qed
qed

lemma int_range_mem: "0 \<le> j \<Longrightarrow> j < n \<Longrightarrow> j \<in> set (map int [0..<nat n])"
  by (auto simp: image_iff intro!: bexI[of _ "nat j"])

lemma MPI_CopySphDataToGhosts_inactive:
  assumes "0 \<le> j" "j < n"
  shows "\<not> active (sphdata (MPI_CopySphDataToGhosts ga n sph) (Nsph sph + NPeriodicGhost sph + j))"
  unfolding MPI_CopySphDataToGhosts_def Let_def
  by (rule fold_store_inactive[OF int_range_mem[OF assms]])

lemma MPI_SearchGhostParticles_inactive:
  assumes "MPI_SearchGhostParticles ga n sph = Inr s'" "0 \<le> j" "j < n"
  shows "\<not> active (sphdata s' (Nsph sph + NPeriodicGhost sph + j))"
proof -
  have "sphdata s' = sphdata (fold (store_mpi_ghost ga (Nsph sph + NPeriodicGhost sph)) (map int [0..<nat n]) sph)"
    using assms(1) by (auto simp: MPI_SearchGhostParticles_def Let_def split: if_splits)
  then show ?thesis using fold_store_inactive[OF int_range_mem[OF assms(2,3)]] by simp
qed

lemma search_sphz: "SearchGhostParticles 3 1 2 0 boxz sphz = Inr sphz_g"
  by (simp add: SearchGhostParticles_def ghost_search_dim_def ghost_search_step_def
      CreateGhostParticle_def ebind_def Let_def boxz_def sphz_def sphz_g_def ghostz_def p0_def)

lemma copy_sphz_g: "r (sphdata (CopySphDataToGhosts boxz sphz_g) 1) 2 = 1/20"
  by (simp add: CopySphDataToGhosts_def refresh_ghost_def Let_def sphz_g_def ghostz_def p0_def)

lemma create_full: "CreateGhostParticle 0 2 (21/20) 0 sph_full z_lhs_periodic =
   Inr (sph_full\<lparr>sphdata := (sphdata sph_full)(1 := ghostz), Nghost := 1\<rparr>)"
  by (simp add: CreateGhostParticle_def Let_def sph_full_def ghostz_def p0_def)

lemma search_full: "SearchGhostParticles 3 1 2 0 boxz sph_full = Inl (GandalfError ''Not enough memory for ghost particles'')"
  by (simp add: SearchGhostParticles_def ghost_search_dim_def ghost_search_step_def
      CreateGhostParticle_def ebind_def Let_def boxz_def sph_full_def p0_def)

text \<open>
  Claim C10. Every operation that writes a ghost into the particle array leaves the written
  entry inactive: after \<^verbatim>\<open>PeriodicGhosts::SearchGhostParticles\<close> every entry of the ghost
  range is inactive; \<^verbatim>\<open>CreateGhostParticle\<close> stores an inactive ghost; the refresh
  \<^verbatim>\<open>PeriodicGhosts::CopySphDataToGhosts\<close> leaves each of the \<^verbatim>\<open>NPeriodicGhost\<close> ghosts
  inactive; and \<^verbatim>\<open>MPIGhosts::SearchGhostParticles\<close> and
  \<^verbatim>\<open>MPIGhosts::CopySphDataToGhosts\<close> store each of the \<^verbatim>\<open>Nmpighosts\<close> received
  particles inactive, whatever flag the sender had set.
\<close>

theorem ghost_writes_inactive:
  "(SearchGhostParticles ndim gr kernrange tghost simbox sph = Inr sa \<longrightarrow>
      (\<forall>i. Nsph sa \<le> i \<and> i < Nsph sa + Nghost sa \<longrightarrow> \<not> active (sphdata sa i)))
   \<and> (CreateGhostParticle i k rk vk sph ghosttype = Inr sb \<longrightarrow>
      \<not> active (sphdata sb (Nsph sph + Nghost sph)))
   \<and> (0 \<le> j \<and> j < NPeriodicGhost sph \<longrightarrow>
      \<not> active (sphdata (CopySphDataToGhosts simbox sph) (Nsph sph + j)))
   \<and> (MPI_SearchGhostParticles ghost_array Nmpighosts sph = Inr sc \<and> 0 \<le> j' \<and> j' < Nmpighosts \<longrightarrow>
      \<not> active (sphdata sc (Nsph sph + NPeriodicGhost sph + j')))
   \<and> (0 \<le> j' \<and> j' < Nmpighosts \<longrightarrow>
      \<not> active (sphdata (MPI_CopySphDataToGhosts ghost_array Nmpighosts sph)
                   (Nsph sph + NPeriodicGhost sph + j')))"
proof (intro conjI impI)
  assume "SearchGhostParticles ndim gr kernrange tghost simbox sph = Inr sa"
  then have "ghosts_inactive sa" by (rule SearchGhostParticles_inactive)
  then show "\<forall>i. Nsph sa \<le> i \<and> i < Nsph sa + Nghost sa \<longrightarrow> \<not> active (sphdata sa i)"
    by (simp add: ghosts_inactive_def)
next
  assume "CreateGhostParticle i k rk vk sph ghosttype = Inr sb"
  then show "\<not> active (sphdata sb (Nsph sph + Nghost sph))"
    by (rule CreateGhostParticle_Inr(1))
next
  assume "0 \<le> j \<and> j < NPeriodicGhost sph"
  then show "\<not> active (sphdata (CopySphDataToGhosts simbox sph) (Nsph sph + j))"
    by (simp add: CopySphDataToGhosts_inactive)
next
  assume "MPI_SearchGhostParticles ghost_array Nmpighosts sph = Inr sc \<and> 0 \<le> j' \<and> j' < Nmpighosts"
  then show "\<not> active (sphdata sc (Nsph sph + NPeriodicGhost sph + j'))"
    using MPI_SearchGhostParticles_inactive by blast
next
  assume "0 \<le> j' \<and> j' < Nmpighosts"
  then show "\<not> active (sphdata (MPI_CopySphDataToGhosts ghost_array Nmpighosts sph)
                   (Nsph sph + NPeriodicGhost sph + j'))"
    by (simp add: MPI_CopySphDataToGhosts_inactive)
qed

theorem ghost_writes_inactive_witness:
  "SearchGhostParticles 3 1 2 0 boxz sphz = Inr sphz_g
   \<and> \<not> active (sphdata sphz_g 1)
   \<and> CreateGhostParticle 0 2 (21/20) 0 sph_full z_lhs_periodic =
       Inr (sph_full\<lparr>sphdata := (sphdata sph_full)(1 := ghostz), Nghost := 1\<rparr>)
   \<and> \<not> active (sphdata (sph_full\<lparr>sphdata := (sphdata sph_full)(1 := ghostz), Nghost := 1\<rparr>) 1)
   \<and> \<not> active (sphdata (CopySphDataToGhosts boxz sphz_g) 1)
   \<and> (\<exists>sc. MPI_SearchGhostParticles (\<lambda>_. p0) 2 sphz = Inr sc \<and> \<not> active (sphdata sc 2))
   \<and> \<not> active (sphdata (MPI_CopySphDataToGhosts (\<lambda>_. p0) 2 sphz) 2)"
proof -
  note T1 = ghost_writes_inactive[where sph = sphz and simbox = boxz and sa = sphz_g
      and ndim = 3 and gr = 1 and kernrange = 2 and tghost = 0
      and ghost_array = "\<lambda>_. p0" and Nmpighosts = 2 and j' = 1]
  note T2 = ghost_writes_inactive[where sph = sph_full and i = 0 and k = 2 and rk = "21/20"
      and vk = 0 and ghosttype = z_lhs_periodic
      and sb = "sph_full\<lparr>sphdata := (sphdata sph_full)(1 := ghostz), Nghost := 1\<rparr>"]
  note T3 = ghost_writes_inactive[where sph = sphz_g and simbox = boxz and j = 0]
  have c1: "\<not> active (sphdata sphz_g 1)"
    using T1[THEN conjunct1, rule_format, OF search_sphz, of 1] by (simp add: sphz_g_def)
  have c2: "\<not> active (sphdata (sph_full\<lparr>sphdata := (sphdata sph_full)(1 := ghostz), Nghost := 1\<rparr>) 1)"
    using T2[THEN conjunct2, THEN conjunct1, rule_format, OF create_full]
    by (simp add: sph_full_def)
  have c3: "\<not> active (sphdata (CopySphDataToGhosts boxz sphz_g) 1)"
    using T3[THEN conjunct2, THEN conjunct2, THEN conjunct1] by (simp add: sphz_g_def)
  obtain sc where e3: "MPI_SearchGhostParticles (\<lambda>_. p0) 2 sphz = Inr sc"
    by (simp add: MPI_SearchGhostParticles_def store_mpi_ghost_def Let_def sphz_def
        numeral_2_eq_2)
  have c4: "\<not> active (sphdata sc 2)"
    using T1[where sc = sc, THEN conjunct2, THEN conjunct2, THEN conjunct2, THEN conjunct1] e3
    by (simp add: sphz_def)
  have c5: "\<not> active (sphdata (MPI_CopySphDataToGhosts (\<lambda>_. p0) 2 sphz) 2)"
    using T1[THEN conjunct2, THEN conjunct2, THEN conjunct2, THEN conjunct2]
    by (simp add: sphz_def)
  show ?thesis using search_sphz create_full c1 c2 c3 c4 c5 e3 by blast
qed

text \<open>
  Claim C1 fails on the code for the z-periodic kinds and for every mirror kind: the
  refresh pass of \<^verbatim>\<open>PeriodicGhosts::CopySphDataToGhosts\<close> shifts only the x and y periodic
  kinds. For the z-periodic ghost that \<^verbatim>\<open>SearchGhostParticles\<close> creates from the particle
  of \<open>sphz\<close> (at \<open>z = 1/20\<close>, ghost at \<open>z = 21/20\<close>), the refresh puts the ghost
  back on top of its origin at \<open>z = 1/20\<close>.
\<close>

theorem refresh_drops_z_periodic_shift:
  "SearchGhostParticles 3 1 2 0 boxz sphz = Inr sphz_g
   \<and> NPeriodicGhost sphz_g = 1
   \<and> itype (sphdata sphz_g 1) = z_lhs_periodic
   \<and> iorig (sphdata sphz_g 1) = 0
   \<and> r (sphdata sphz_g 1) 2 = r (sphdata sphz_g 0) 2 + boxsize boxz 2
   \<and> itype (sphdata (CopySphDataToGhosts boxz sphz_g) 1) = z_lhs_periodic
   \<and> r (sphdata (CopySphDataToGhosts boxz sphz_g) 1) 2 = r (sphdata sphz_g 0) 2
   \<and> r (sphdata (CopySphDataToGhosts boxz sphz_g) 1) 2
       \<noteq> r (sphdata (CopySphDataToGhosts boxz sphz_g) 0) 2 + boxsize boxz 2"
  using search_sphz
  by (simp add: CopySphDataToGhosts_def refresh_ghost_def Let_def sphz_g_def ghostz_def p0_def
      boxz_def)

text \<open>
  Claim C8 fails on the code when the ghost array is exactly full: the guard of
  \<^verbatim>\<open>CreateGhostParticle\<close> is \<^verbatim>\<open>Nghost > Nghostmax\<close>, so with
  \<^verbatim>\<open>Nghost = Nghostmax = Nsphmax - Nsph\<close> no error is raised and the ghost is stored at
  index \<^verbatim>\<open>Nsphmax\<close>. The search routine raises only after the loops, from its own
  final check.
\<close>

theorem create_ghost_stores_at_Nsphmax:
  "Nghostmax sph_full = Nsphmax sph_full - Nsph sph_full
   \<and> Nghost sph_full = Nghostmax sph_full
   \<and> (case CreateGhostParticle 0 2 (21/20) 0 sph_full z_lhs_periodic of
        Inl e \<Rightarrow> False
      | Inr s \<Rightarrow> sphdata s (Nsphmax sph_full) = ghostz \<and> Nghost s = Nghostmax s + 1)
   \<and> SearchGhostParticles 3 1 2 0 boxz sph_full =
        Inl (GandalfError ''Not enough memory for ghost particles'')"
  using search_full by (simp add: create_full) (simp add: sph_full_def)
section \<open>Verification: integrator and pair forces\<close>

lemma for_k_Suc: "for_k (Suc n) g x = (for_k n g x)(n := g n (for_k n g x))"
  by (simp add: for_k_def)

lemma for_k_0: "for_k 0 g x = x"
  by (simp add: for_k_def)

lemma for_k_beyond: "n \<le> k \<Longrightarrow> for_k n g x k = x k"
  by (induction n) (simp_all add: for_k_0 for_k_Suc)

lemma for_k_nth:
  assumes "\<And>k x y. x k = y k \<Longrightarrow> g k x = g k y"
  shows "for_k n g x k = (if k < n then g k x else x k)"
proof (induction n)
  case 0 show ?case by (simp add: for_k_0)
next
  case (Suc n)
  show ?case
  proof (cases "k = n")
    case True
    have "for_k n g x n = x n" by (simp add: for_k_beyond)
    then have "g n (for_k n g x) = g n x" by (rule assms)
    then show ?thesis using True by (simp add: for_k_Suc)
  next
    case False
    then show ?thesis using Suc by (auto simp: for_k_Suc)
  qed
qed

lemma diss_eval:
  "vsignal_hydro prm1 p0 p0 (- 1) = 3"
  "vsignal_hydrograv prm1 p0 p0 (- 1) = 4"
  "fst (hydro_dissipation prm1 eos (- 1) 1 1 (0, p0, p0)) = 3/2"
  "fst (hydrograv_dissipation prm1 eos (- 1) 1 1 (0, p0, p0)) = 2"
  "dudt (fst (snd (hydro_dissipation prm1 eos (- 1) 1 1 (0, p0, p0)))) = - 3/4"
  "dudt (fst (snd (hydrograv_dissipation prm1 eos (- 1) 1 1 (0, p0, p0)))) = - 1"
  by (simp_all add: vsignal_hydro_def vsignal_hydrograv_def hydro_dissipation_def
      hydrograv_dissipation_def conductivity_def prm1_def p0_def Let_def)

lemma conductivity_keeps:
  "m (fst (conductivity prm eos dvdr wi wj wr pp)) = m (fst pp)"
  "m (snd (conductivity prm eos dvdr wi wj wr pp)) = m (snd pp)"
  "a (fst (conductivity prm eos dvdr wi wj wr pp)) = a (fst pp)"
  "a (snd (conductivity prm eos dvdr wi wj wr pp)) = a (snd pp)"
  by (simp_all add: conductivity_def Let_def)

lemma hydro_dissipation_keeps:
  "m (fst (snd (hydro_dissipation prm eos dvdr wi wj st))) = m (fst (snd st))"
  "m (snd (snd (hydro_dissipation prm eos dvdr wi wj st))) = m (snd (snd st))"
  "a (fst (snd (hydro_dissipation prm eos dvdr wi wj st))) = a (fst (snd st))"
  "a (snd (snd (hydro_dissipation prm eos dvdr wi wj st))) = a (snd (snd st))"
  by (simp_all add: hydro_dissipation_def Let_def conductivity_keeps)

lemma for_k_add: "for_k n (\<lambda>k x. x k + c k) x k = (if k < n then x k + c k else x k)"
  by (rule for_k_nth) simp

lemma for_k_sub: "for_k n (\<lambda>k x. x k - c k) x k = (if k < n then x k - c k else x k)"
  by (rule for_k_nth) simp

text \<open>
  Claim C2 fails on the code: \<^verbatim>\<open>AdvanceParticles\<close> drifts the position to first
  order, \<open>r = r0 + v0 dt\<close>, without the term \<open>0.5 a0 dt\<^sup>2\<close> that the claim and the
  routine's own header comment state; the velocity is kicked as claimed. For the star
  \<open>star0\<close> (\<open>r0 = 0\<close>, \<open>v0 = 1\<close>, \<open>a0 = 2\<close>) one unit of time after the start of
  its step the code gives \<open>r = 1\<close>, the claimed formula \<open>2\<close>.
\<close>

theorem advance_drift_is_first_order:
  "star_r (AdvanceParticles 1 1 1 1 (\<lambda>_. star0) 1 0) 0 = r0 star0 0 + v0 star0 0 * 1
   \<and> star_r (AdvanceParticles 1 1 1 1 (\<lambda>_. star0) 1 0) 0
        \<noteq> r0 star0 0 + v0 star0 0 * 1 + 0.5 * a0 star0 0 * 1\<^sup>2
   \<and> star_v (AdvanceParticles 1 1 1 1 (\<lambda>_. star0) 1 0) 0 = v0 star0 0 + a0 star0 0 * 1"
  by (simp add: AdvanceParticles_def advance_star_def for_k_def star0_def Let_def
      signed_divide_int_def)

text \<open>
  Claim C6 fails on the code: for the fixed-alpha viscosity the combined hydro-gravity
  routine computes the signal speed as \<open>c\<^sub>i + c\<^sub>j - \<beta> (v\<^sub>i\<^sub>j \<cdot> r\<^sub>i\<^sub>j)\<close>, without the
  factor \<open>\<alpha>\<close> that the pure-hydro routine has. With \<open>\<alpha> = 1/2\<close>, \<open>\<beta> = 2\<close>, sound
  speeds \<open>1\<close> and \<open>v\<^sub>i\<^sub>j \<cdot> r\<^sub>i\<^sub>j = -1\<close> the two signal speeds are \<open>3\<close> and \<open>4\<close>, and
  the dissipation blocks of the two routines leave different pressure terms and heating
  rates.
\<close>

theorem hydrograv_vsignal_omits_alpha:
  "vsignal_hydro prm1 p0 p0 (- 1)
      = sound p0 + sound p0 - beta_visc prm1 * alpha_visc prm1 * (- 1)
   \<and> vsignal_hydrograv prm1 p0 p0 (- 1)
      \<noteq> sound p0 + sound p0 - beta_visc prm1 * alpha_visc prm1 * (- 1)
   \<and> fst (hydro_dissipation prm1 eos (- 1) 1 1 (0, p0, p0)) = 3/2
   \<and> fst (hydrograv_dissipation prm1 eos (- 1) 1 1 (0, p0, p0)) = 2
   \<and> dudt (fst (snd (hydro_dissipation prm1 eos (- 1) 1 1 (0, p0, p0)))) = - 3/4
   \<and> dudt (fst (snd (hydrograv_dissipation prm1 eos (- 1) 1 1 (0, p0, p0)))) = - 1"
proof -
  have "sound p0 = 1" "beta_visc prm1 = 2" "alpha_visc prm1 = 1/2"
    by (simp_all add: prm1_def p0_def)
  then show ?thesis by (simp add: diss_eval)
qed

lemma hydro_pair_antisym:
  "m (fst (hydro_pair ndim prm kern eos neiblist drmag dr jj (parti, neibpart))) = m parti
   \<and> m (snd (hydro_pair ndim prm kern eos neiblist drmag dr jj (parti, neibpart)) (neiblist jj))
       = m (neibpart (neiblist jj))
   \<and> snd (hydro_pair ndim prm kern eos neiblist drmag dr jj (parti, neibpart))
       = neibpart (neiblist jj :=
           snd (hydro_pair ndim prm kern eos neiblist drmag dr jj (parti, neibpart)) (neiblist jj))
   \<and> (\<forall>k. m parti *
            (a (fst (hydro_pair ndim prm kern eos neiblist drmag dr jj (parti, neibpart))) k
               - a parti k)
          + m (neibpart (neiblist jj)) *
            (a (snd (hydro_pair ndim prm kern eos neiblist drmag dr jj (parti, neibpart))
                  (neiblist jj)) k
               - a (neibpart (neiblist jj)) k) = 0)"
  by (simp add: hydro_pair_def Let_def hydro_dissipation_keeps for_k_add for_k_sub)

lemma hydro_pair_total:
  assumes "finite J" "neiblist jj \<in> J"
  shows "momentum J k (hydro_pair ndim prm kern eos neiblist drmag dr jj st) = momentum J k st"
proof -
  obtain parti neibpart where st: "st = (parti, neibpart)" by (cases st)
  define res where "res = hydro_pair ndim prm kern eos neiblist drmag dr jj (parti, neibpart)"
  define j where "j = neiblist jj"
  note F = hydro_pair_antisym[of ndim prm kern eos neiblist drmag dr jj parti neibpart,
      folded res_def j_def]
  have f1: "m (fst res) = m parti" and f2: "m (snd res j) = m (neibpart j)"
    and f3: "snd res = neibpart(j := snd res j)"
    and f4: "m parti * (a (fst res) k - a parti k)
             + m (neibpart j) * (a (snd res j) k - a (neibpart j) k) = 0"
    using F by simp_all
  have jJ: "j \<in> J" using assms(2) by (simp add: j_def)
  have rest: "(\<Sum>i\<in>J - {j}. m (snd res i) * a (snd res i) k)
                = (\<Sum>i\<in>J - {j}. m (neibpart i) * a (neibpart i) k)"
  proof (rule sum.cong)
    fix i assume "i \<in> J - {j}"
    then have "i \<noteq> j" by simp
    then have "snd res i = neibpart i" using f3 by (metis fun_upd_other)
    then show "m (snd res i) * a (snd res i) k = m (neibpart i) * a (neibpart i) k" by simp
  qed simp
  have s1: "(\<Sum>i\<in>J. m (snd res i) * a (snd res i) k)
              = m (snd res j) * a (snd res j) k + (\<Sum>i\<in>J - {j}. m (snd res i) * a (snd res i) k)"
    using assms(1) jJ by (rule sum.remove)
  have s2: "(\<Sum>i\<in>J. m (neibpart i) * a (neibpart i) k)
              = m (neibpart j) * a (neibpart j) k
                + (\<Sum>i\<in>J - {j}. m (neibpart i) * a (neibpart i) k)"
    using assms(1) jJ by (rule sum.remove)
  define R where "R = (\<Sum>i\<in>J - {j}. m (neibpart i) * a (neibpart i) k)"
  have m1: "momentum J k res = m parti * a (fst res) k + (m (neibpart j) * a (snd res j) k + R)"
    by (simp only: momentum_def s1 rest f1 f2 R_def)
  have m2: "momentum J k (parti, neibpart)
              = m parti * a parti k + (m (neibpart j) * a (neibpart j) k + R)"
    by (simp only: momentum_def s2 R_def fst_conv snd_conv)
  have "momentum J k res - momentum J k (parti, neibpart)
          = m parti * (a (fst res) k - a parti k)
            + m (neibpart j) * (a (snd res j) k - a (neibpart j) k)"
    unfolding m1 m2 by (simp add: algebra_simps)
  then show ?thesis using f4 by (simp add: st res_def)
qed

lemma hydro_fold_total:
  assumes "finite J"
  shows "\<forall>jj\<in>set js. neiblist jj \<in> J \<Longrightarrow>
         momentum J k (fold (hydro_pair ndim prm kern eos neiblist drmag dr) js st)
           = momentum J k st"
proof (induction js arbitrary: st)
  case Nil then show ?case by simp
next
  case (Cons jj js)
  have "momentum J k (fold (hydro_pair ndim prm kern eos neiblist drmag dr) js
                        (hydro_pair ndim prm kern eos neiblist drmag dr jj st))
          = momentum J k (hydro_pair ndim prm kern eos neiblist drmag dr jj st)"
    using Cons by simp
  also have "\<dots> = momentum J k st"
    using hydro_pair_total[OF assms] Cons.prems by simp
  finally show ?case by simp
qed

text \<open>
  Claim C7. One pass of the body of the neighbour loop of \<^verbatim>\<open>ComputeSphHydroForces\<close>
  changes no mass, changes no entry of \<open>neibpart\<close> other than the neighbour's, and the
  increments of the two hydrodynamic accelerations cancel in momentum, component by
  component: \<open>m\<^sub>i \<Delta>a\<^sub>i + m\<^sub>j \<Delta>a\<^sub>j = 0\<close>. Hence the whole loop leaves the sum of
  \<open>m a\<close> over \<open>parti\<close> and any finite set of entries of \<open>neibpart\<close> that holds the
  listed neighbours unchanged.
\<close>

theorem hydro_pair_momentum:
  "m (fst (hydro_pair ndim prm kern eos neiblist drmag dr jj (parti, neibpart))) = m parti
   \<and> m (snd (hydro_pair ndim prm kern eos neiblist drmag dr jj (parti, neibpart)) (neiblist jj))
       = m (neibpart (neiblist jj))
   \<and> snd (hydro_pair ndim prm kern eos neiblist drmag dr jj (parti, neibpart))
       = neibpart (neiblist jj :=
           snd (hydro_pair ndim prm kern eos neiblist drmag dr jj (parti, neibpart)) (neiblist jj))
   \<and> (\<forall>k. m parti *
            (a (fst (hydro_pair ndim prm kern eos neiblist drmag dr jj (parti, neibpart))) k
               - a parti k)
          + m (neibpart (neiblist jj)) *
            (a (snd (hydro_pair ndim prm kern eos neiblist drmag dr jj (parti, neibpart))
                  (neiblist jj)) k
               - a (neibpart (neiblist jj)) k) = 0)
   \<and> (finite J \<and> (\<forall>jj. 0 \<le> jj \<and> jj < Nneib \<longrightarrow> neiblist jj \<in> J) \<longrightarrow>
        (\<forall>k. momentum J k
               (ComputeSphHydroForces ndim prm kern eos Nneib neiblist drmag dr parti neibpart)
             = momentum J k (parti, neibpart)))"
proof -
  have tot: "momentum J k
               (ComputeSphHydroForces ndim prm kern eos Nneib neiblist drmag dr parti neibpart)
             = momentum J k (parti, neibpart)"
    if "finite J" "\<forall>jj. 0 \<le> jj \<and> jj < Nneib \<longrightarrow> neiblist jj \<in> J" for k
  proof -
    have "\<forall>jj\<in>set (map int [0..<nat Nneib]). neiblist jj \<in> J" using that(2) by auto
    then show ?thesis
      unfolding ComputeSphHydroForces_def by (rule hydro_fold_total[OF that(1)])
  qed
  show ?thesis using hydro_pair_antisym[of ndim prm kern eos neiblist drmag dr jj parti neibpart] tot
    by blast
qed

lemma hydro_eval:
  "a (fst (ComputeSphHydroForces 1 prm1 kern0 (Isothermal 2 1 1) 1 (\<lambda>_. 0) (\<lambda>_. 1/10) (\<lambda>_. 1)
             p0 (\<lambda>_. p0))) 0 = - 20"
  "a (snd (ComputeSphHydroForces 1 prm1 kern0 (Isothermal 2 1 1) 1 (\<lambda>_. 0) (\<lambda>_. 1/10) (\<lambda>_. 1)
             p0 (\<lambda>_. p0)) 0) 0 = 20"
  by (simp_all add: ComputeSphHydroForces_def hydro_pair_def hydro_dissipation_def
        for_k_def DotProduct_def Let_def kern0_def p0_def)

theorem hydro_pair_momentum_witness:
  "finite {0::int}
   \<and> a (fst (ComputeSphHydroForces 1 prm1 kern0 (Isothermal 2 1 1) 1 (\<lambda>_. 0) (\<lambda>_. 1/10) (\<lambda>_. 1)
             p0 (\<lambda>_. p0))) 0 = - 20
   \<and> a (snd (ComputeSphHydroForces 1 prm1 kern0 (Isothermal 2 1 1) 1 (\<lambda>_. 0) (\<lambda>_. 1/10) (\<lambda>_. 1)
             p0 (\<lambda>_. p0)) 0) 0 = 20
   \<and> (\<forall>k. momentum {0} k
           (ComputeSphHydroForces 1 prm1 kern0 (Isothermal 2 1 1) 1 (\<lambda>_. 0) (\<lambda>_. 1/10) (\<lambda>_. 1)
             p0 (\<lambda>_. p0))
         = momentum {0} k (p0, \<lambda>_. p0))"
proof -
  have h: "finite {0::int} \<and> (\<forall>jj. 0 \<le> jj \<and> jj < 1 \<longrightarrow> (\<lambda>_. 0::int) jj \<in> {0})" by simp
  note T = hydro_pair_momentum[where J = "{0}" and Nneib = 1 and neiblist = "\<lambda>_. 0"
      and ndim = 1 and prm = prm1 and kern = kern0 and eos = "Isothermal 2 1 1"
      and drmag = "\<lambda>_. 1/10" and dr = "\<lambda>_. 1" and parti = p0 and neibpart = "\<lambda>_. p0"]
  have "\<forall>k. momentum {0} k
           (ComputeSphHydroForces 1 prm1 kern0 (Isothermal 2 1 1) 1 (\<lambda>_. 0) (\<lambda>_. 1/10) (\<lambda>_. 1)
             p0 (\<lambda>_. p0))
         = momentum {0} k (p0, \<lambda>_. p0)"
    using T[THEN conjunct2, THEN conjunct2, THEN conjunct2, THEN conjunct2, rule_format, OF h]
    by blast
  then show ?thesis using hydro_eval by simp
qed

lemma post_general:
  assumes "rho parti \<noteq> 0" "invrho parti = 1 / rho parti" "invomega parti = 1 / Omega"
  shows "div_v (ComputePostHydroQuantities eos parti) = div_v parti / rho parti"
    and "dudt (ComputePostHydroQuantities eos parti) =
           dudt parti - Pressure eos (parti\<lparr>div_v := div_v parti / rho parti\<rparr>)
             * div_v (ComputePostHydroQuantities eos parti) / (rho parti * Omega)"
  using assms by (simp_all add: ComputePostHydroQuantities_def Let_def)

lemma post_eval:
  "Pressure (Isothermal 2 1 1) p_post = 2"
  "dudt (ComputePostHydroQuantities (Isothermal 2 1 1) p_post) = - 2"
  "div_v (ComputePostHydroQuantities (Isothermal 2 1 1) p_post) = 1"
  by (simp_all add: ComputePostHydroQuantities_def Let_def Isothermal_def p_post_def p0_def)


text \<open>
  Claim C5 fails on the code as stated: the compressional heating is not multiplied by
  the pressure factor. For \<open>p_post\<close> (\<open>\<rho> = 1\<close>, \<open>\<Omega> = 1\<close>, \<open>P = 2\<close>, stored
  pressure factor \<open>2\<close>, accumulated divergence \<open>1\<close>) the code lowers \<open>du/dt\<close> by
  \<open>2\<close>, the claimed expression by \<open>4\<close>.
\<close>

theorem post_hydro_not_pfactor:
  "pfactor p_post = Pressure (Isothermal 2 1 1) p_post / ((rho p_post)\<^sup>2 * (1 / invomega p_post))
   \<and> div_v (ComputePostHydroQuantities (Isothermal 2 1 1) p_post) = div_v p_post / rho p_post
   \<and> dudt (ComputePostHydroQuantities (Isothermal 2 1 1) p_post)
       \<noteq> dudt p_post - Pressure (Isothermal 2 1 1) p_post
                  * div_v (ComputePostHydroQuantities (Isothermal 2 1 1) p_post)
                  * pfactor p_post / rho p_post"
proof -
  have "pfactor p_post = 2" "rho p_post = 1" "invomega p_post = 1" "div_v p_post = 1"
    "dudt p_post = 0"
    by (simp_all add: p_post_def p0_def)
  then show ?thesis by (simp add: post_eval)
qed

text \<open>
  Claim C5 as amended. With the stored inverses \<open>invrho = 1/\<rho>\<close> and
  \<open>invomega = 1/\<Omega>\<close>, \<^verbatim>\<open>ComputePostHydroQuantities\<close> divides the accumulated velocity
  divergence by \<open>\<rho>\<close> and then lowers \<open>du/dt\<close> by \<open>P (\<nabla>\<cdot>v) / (\<rho> \<Omega>)\<close>, where
  \<open>\<nabla>\<cdot>v\<close> is the normalised divergence and \<open>P\<close> the pressure of the particle at that
  point; if the stored pressure factor is \<open>\<Pi> = P / (\<rho>\<^sup>2 \<Omega>)\<close>, this is
  \<open>\<rho> \<Pi> (\<nabla>\<cdot>v)\<close>.
\<close>

theorem post_hydro_pdv:
  assumes "rho parti \<noteq> 0" and "invrho parti = 1 / rho parti" and "invomega parti = 1 / Omega"
  shows "div_v (ComputePostHydroQuantities eos parti) = div_v parti / rho parti
   \<and> dudt (ComputePostHydroQuantities eos parti) =
         dudt parti - Pressure eos (parti\<lparr>div_v := div_v parti / rho parti\<rparr>)
           * div_v (ComputePostHydroQuantities eos parti) / (rho parti * Omega)
   \<and> (pfactor parti = Pressure eos (parti\<lparr>div_v := div_v parti / rho parti\<rparr>)
                          / ((rho parti)\<^sup>2 * Omega) \<longrightarrow>
        dudt (ComputePostHydroQuantities eos parti) =
          dudt parti - rho parti * pfactor parti * div_v (ComputePostHydroQuantities eos parti))"
  using assms post_general[OF assms, of eos] by (simp add: power2_eq_square)

theorem post_hydro_pdv_witness:
  "rho p_post \<noteq> 0 \<and> invrho p_post = 1 / rho p_post \<and> invomega p_post = 1 / 1
   \<and> pfactor p_post = Pressure (Isothermal 2 1 1) (p_post\<lparr>div_v := div_v p_post / rho p_post\<rparr>)
                          / ((rho p_post)\<^sup>2 * 1)
   \<and> div_v (ComputePostHydroQuantities (Isothermal 2 1 1) p_post) = 1
   \<and> dudt (ComputePostHydroQuantities (Isothermal 2 1 1) p_post) = - 2"
proof -
  have h1: "rho p_post \<noteq> 0" and h2: "invrho p_post = 1 / rho p_post"
    and h3: "invomega p_post = 1 / 1"
    by (simp_all add: p_post_def p0_def)
  have h4: "pfactor p_post = Pressure (Isothermal 2 1 1) (p_post\<lparr>div_v := div_v p_post / rho p_post\<rparr>)
                          / ((rho p_post)\<^sup>2 * 1)"
    by (simp add: p_post_def p0_def Isothermal_def)
  have v: "rho p_post = 1" "div_v p_post = 1" "dudt p_post = 0" "pfactor p_post = 2"
    by (simp_all add: p_post_def p0_def)
  from post_hydro_pdv[OF h1 h2 h3, of "Isothermal 2 1 1"] h4
  have "div_v (ComputePostHydroQuantities (Isothermal 2 1 1) p_post) = div_v p_post / rho p_post"
    and "dudt (ComputePostHydroQuantities (Isothermal 2 1 1) p_post) =
          dudt p_post - rho p_post * pfactor p_post
            * div_v (ComputePostHydroQuantities (Isothermal 2 1 1) p_post)"
    by blast+
  then show ?thesis using h1 h2 h3 h4 by (simp add: v)
qed
section \<open>Verification: the smoothing length iteration\<close>

lemma h_pre_iteration: "iteration (h_pre dens st) = iteration st + 1"
  by (simp add: h_pre_def Let_def)

lemma h_body_Again:
  assumes "h_body dens prm ndim hmax st = Again st'"
  shows "iteration st' = iteration st + 1" and "iteration st' < 5 * iteration_max"
  using assms
  by (auto simp: h_body_def h_pre_def h_assign_def h_check_def Let_def iteration_max_def
        split: if_splits)

lemma h_run_loop:
  "h_run dens prm ndim hmax k st = Some st' \<Longrightarrow>
   h_loop dens prm ndim hmax st = h_loop dens prm ndim hmax st'"
proof (induction k arbitrary: st)
  case 0 then show ?case by simp
next
  case (Suc k)
  then obtain s1 where b: "h_body dens prm ndim hmax st = Again s1"
    and r: "h_run dens prm ndim hmax k s1 = Some st'"
    by (auto split: hstep.splits)
  have "h_loop dens prm ndim hmax st = h_loop dens prm ndim hmax s1"
    by (subst h_loop.simps) (simp add: b)
  then show ?case using Suc.IH[OF r] by simp
qed

lemma h_run_iteration:
  "h_run dens prm ndim hmax k st = Some st' \<Longrightarrow> iteration st' = iteration st + int k"
proof (induction k arbitrary: st)
  case 0 then show ?case by simp
next
  case (Suc k)
  then obtain s1 where b: "h_body dens prm ndim hmax st = Again s1"
    and r: "h_run dens prm ndim hmax k s1 = Some st'"
    by (auto split: hstep.splits)
  show ?case using Suc.IH[OF r] h_body_Again(1)[OF b] by simp
qed

lemma h_run_bound:
  "h_run dens prm ndim hmax (Suc k) st = Some st' \<Longrightarrow> iteration st' < 5 * iteration_max"
proof (induction k arbitrary: st)
  case 0
  then show ?case by (auto split: hstep.splits dest: h_body_Again(2))
next
  case (Suc k)
  then obtain s1 where r: "h_run dens prm ndim hmax (Suc k) s1 = Some st'"
    by (auto split: hstep.splits)
  then show ?case by (rule Suc.IH)
qed

lemma h_loop_stops:
  "h_loop dens prm ndim hmax st = res \<longleftrightarrow>
     (\<exists>k st'. h_run dens prm ndim hmax k st = Some st' \<and>
              h_body dens prm ndim hmax st' = Stop res)"
proof
  show "h_loop dens prm ndim hmax st = res \<Longrightarrow>
     \<exists>k st'. h_run dens prm ndim hmax k st = Some st' \<and> h_body dens prm ndim hmax st' = Stop res"
  proof (induction dens prm ndim hmax st rule: h_loop.induct)
    case (1 dens prm ndim hmax st)
    show ?case
    proof (cases "h_body dens prm ndim hmax st")
      case (Again s1)
      then have "h_loop dens prm ndim hmax s1 = res"
        using "1.prems" by (subst (asm) h_loop.simps) simp
      from "1.IH"[OF Again this] obtain k st' where
        "h_run dens prm ndim hmax k s1 = Some st'" "h_body dens prm ndim hmax st' = Stop res"
        by blast
      then have "h_run dens prm ndim hmax (Suc k) st = Some st'" using Again by simp
      then show ?thesis using \<open>h_body dens prm ndim hmax st' = Stop res\<close> by blast
    next
      case (Stop x)
      then have "x = res" using "1.prems" by (subst (asm) h_loop.simps) simp
      then have "h_run dens prm ndim hmax 0 st = Some st \<and> h_body dens prm ndim hmax st = Stop res"
        using Stop by simp
      then show ?thesis by blast
    qed
  qed
next
  assume "\<exists>k st'. h_run dens prm ndim hmax k st = Some st' \<and>
              h_body dens prm ndim hmax st' = Stop res"
  then obtain k st' where r: "h_run dens prm ndim hmax k st = Some st'"
    and b: "h_body dens prm ndim hmax st' = Stop res" by blast
  have "h_loop dens prm ndim hmax st' = res" by (subst h_loop.simps) (simp add: b)
  then show "h_loop dens prm ndim hmax st = res" using h_run_loop[OF r] by simp
qed

lemma h_assign_Inl_iff:
  "h_assign prm ndim st = Inl e \<longleftrightarrow>
     5 * iteration_max \<le> iteration st \<and>
     e = GandalfError ''Problem with convergence of h-rho iteration''"
  by (auto simp: h_assign_def Let_def iteration_max_def)

lemma h_check_not_Raised: "h_check hmax x \<noteq> Stop (Raised e)"
  by (simp add: h_check_def)

lemma h_body_Raised_iff:
  "h_body dens prm ndim hmax st = Stop (Raised e) \<longleftrightarrow>
     \<not> h_converged prm ndim (h_pre dens st) \<and> 5 * iteration_max \<le> iteration st + 1 \<and>
     e = GandalfError ''Problem with convergence of h-rho iteration''"
proof (cases "h_assign prm ndim (h_pre dens st)")
  case (Inl e')
  then have "5 * iteration_max \<le> iteration st + 1"
    and "e' = GandalfError ''Problem with convergence of h-rho iteration''"
    using h_assign_Inl_iff[of prm ndim "h_pre dens st" e'] by (simp_all add: h_pre_iteration)
  then show ?thesis using Inl by (auto simp: h_body_def Let_def)
next
  case (Inr s2)
  then have "\<not> 5 * iteration_max \<le> iteration st + 1"
    using h_assign_Inl_iff[of prm ndim "h_pre dens st"
            "GandalfError ''Problem with convergence of h-rho iteration''"]
    by (simp add: h_pre_iteration)
  then show ?thesis using Inr by (auto simp: h_body_def Let_def h_check_not_Raised)
qed

lemma h_body_ReturnZero_iff:
  "h_body dens prm ndim hmax st = Stop (ReturnZero s2) \<longleftrightarrow>
     \<not> h_converged prm ndim (h_pre dens st) \<and> h_assign prm ndim (h_pre dens st) = Inr s2 \<and>
     hmax < h (part_i s2)"
  by (cases "h_assign prm ndim (h_pre dens st)")
     (auto simp: h_body_def Let_def h_check_def split: if_splits)

lemma h_loop_Raised_iff:
  assumes "iteration st = 0"
  shows "h_loop dens prm ndim hmax st = Raised e \<longleftrightarrow>
     e = GandalfError ''Problem with convergence of h-rho iteration'' \<and>
     (\<exists>st'. h_run dens prm ndim hmax (nat (5 * iteration_max - 1)) st = Some st' \<and>
            \<not> h_converged prm ndim (h_pre dens st'))"
proof
  assume "h_loop dens prm ndim hmax st = Raised e"
  then obtain k st' where r: "h_run dens prm ndim hmax k st = Some st'"
    and b: "h_body dens prm ndim hmax st' = Stop (Raised e)"
    unfolding h_loop_stops by blast
  from b have nc: "\<not> h_converged prm ndim (h_pre dens st')"
    and ge: "5 * iteration_max \<le> iteration st' + 1"
    and e: "e = GandalfError ''Problem with convergence of h-rho iteration''"
    unfolding h_body_Raised_iff by simp_all
  have it: "iteration st' = int k" using h_run_iteration[OF r] assms by simp
  have "k \<noteq> 0" using ge it by (auto simp: iteration_max_def)
  then obtain k' where "k = Suc k'" by (cases k) auto
  then have "iteration st' < 5 * iteration_max" using h_run_bound r by blast
  then have "k = nat (5 * iteration_max - 1)" using ge it by (simp add: iteration_max_def)
  then show "e = GandalfError ''Problem with convergence of h-rho iteration'' \<and>
     (\<exists>st'. h_run dens prm ndim hmax (nat (5 * iteration_max - 1)) st = Some st' \<and>
            \<not> h_converged prm ndim (h_pre dens st'))"
    using r nc e by blast
next
  assume "e = GandalfError ''Problem with convergence of h-rho iteration'' \<and>
     (\<exists>st'. h_run dens prm ndim hmax (nat (5 * iteration_max - 1)) st = Some st' \<and>
            \<not> h_converged prm ndim (h_pre dens st'))"
  then obtain st' where e: "e = GandalfError ''Problem with convergence of h-rho iteration''"
    and r: "h_run dens prm ndim hmax (nat (5 * iteration_max - 1)) st = Some st'"
    and nc: "\<not> h_converged prm ndim (h_pre dens st')" by blast
  have "iteration st' = 5 * iteration_max - 1"
    using h_run_iteration[OF r] assms by (simp add: iteration_max_def)
  then have "h_body dens prm ndim hmax st' = Stop (Raised e)"
    unfolding h_body_Raised_iff using nc e by simp
  then show "h_loop dens prm ndim hmax st = Raised e"
    unfolding h_loop_stops using r by blast
qed

lemma h_loop_ReturnZero_iff:
  "h_loop dens prm ndim hmax st = ReturnZero s2 \<longleftrightarrow>
     (\<exists>k st'. h_run dens prm ndim hmax k st = Some st' \<and>
        \<not> h_converged prm ndim (h_pre dens st') \<and>
        h_assign prm ndim (h_pre dens st') = Inr s2 \<and> hmax < h (part_i s2))"
  unfolding h_loop_stops h_body_ReturnZero_iff ..

lemma gradh_finish_code:
  "fst (gradh_finish ndim prm kern eos nbody Nneib hmax drsqd gpot_neib st) \<noteq> 0"
  by (simp add: gradh_finish_def Let_def)

lemma sm2012_finish_code:
  "fst (sm2012_finish ndim prm kern eos nbody Nneib hmax drsqd gpot_neib st) \<noteq> 0"
  by (simp add: sm2012_finish_def Let_def)

lemma finish_not_zero: "fst x \<noteq> (0::int) \<Longrightarrow> x \<noteq> (0, p')"
  by (cases x) auto

lemma GradhSph_ComputeH_zero_iff:
  "GradhSph_ComputeH ndim prm kern eos nbody Nneib hmax m_neib drsqd gpot_neib parti = Inr (0, p')
   \<longleftrightarrow> (\<exists>s2. h_loop (gradh_density ndim kern Nneib m_neib drsqd) prm ndim hmax
               (gradh_init prm hmax parti) = ReturnZero s2 \<and> p' = part_i s2)"
  unfolding GradhSph_ComputeH_def
  by (cases "h_loop (gradh_density ndim kern Nneib m_neib drsqd) prm ndim hmax
               (gradh_init prm hmax parti)")
     (auto simp: finish_not_zero[OF gradh_finish_code])

lemma GradhSph_ComputeH_error_iff:
  "GradhSph_ComputeH ndim prm kern eos nbody Nneib hmax m_neib drsqd gpot_neib parti = Inl e
   \<longleftrightarrow> h_loop (gradh_density ndim kern Nneib m_neib drsqd) prm ndim hmax
               (gradh_init prm hmax parti) = Raised e"
  unfolding GradhSph_ComputeH_def
  by (cases "h_loop (gradh_density ndim kern Nneib m_neib drsqd) prm ndim hmax
               (gradh_init prm hmax parti)") auto

lemma SM2012Sph_ComputeH_zero_iff:
  "SM2012Sph_ComputeH ndim prm kern eos nbody Nneib hmax m_neib mu drsqd gpot_neib parti = Inr (0, p')
   \<longleftrightarrow> (\<exists>s2. h_loop (sm2012_density ndim kern Nneib m_neib mu drsqd) prm ndim hmax
               (sm2012_init hmax parti) = ReturnZero s2 \<and> p' = part_i s2)"
  unfolding SM2012Sph_ComputeH_def
  by (cases "h_loop (sm2012_density ndim kern Nneib m_neib mu drsqd) prm ndim hmax
               (sm2012_init hmax parti)")
     (auto simp: finish_not_zero[OF sm2012_finish_code])

lemma SM2012Sph_ComputeH_error_iff:
  "SM2012Sph_ComputeH ndim prm kern eos nbody Nneib hmax m_neib mu drsqd gpot_neib parti = Inl e
   \<longleftrightarrow> h_loop (sm2012_density ndim kern Nneib m_neib mu drsqd) prm ndim hmax
               (sm2012_init hmax parti) = Raised e"
  unfolding SM2012Sph_ComputeH_def
  by (cases "h_loop (sm2012_density ndim kern Nneib m_neib mu drsqd) prm ndim hmax
               (sm2012_init hmax parti)") auto

lemma isolated_step:
  assumes D: "\<And>p. rho (snd (dens p)) = 0 \<and> m (snd (dens p)) = m p \<and>
                   invrho (snd (dens p)) = invrho p \<and> h (snd (dens p)) = h p"
    and inv: "isolated_inv st" and it: "iteration st + 1 < 150"
  shows "\<exists>st'. h_body dens prm1 1 2 st = Again st' \<and> isolated_inv st'"
proof -
  define s1 where "s1 = h_pre dens st"
  have f: "rho (part_i s1) = 0" "m (part_i s1) = 1" "invrho (part_i s1) = 1"
    "h (part_i s1) = h (part_i st)" "h_lower_bound s1 = 0"
    "h_upper_bound s1 = h_upper_bound st" "iteration s1 = iteration st + 1"
    using D[of "part_i st"] inv by (simp_all add: s1_def h_pre_def Let_def isolated_inv_def)
  have nc: "\<not> h_converged prm1 1 s1" by (simp add: h_converged_def f)
  have hb: "h_body dens prm1 1 2 st =
              (case h_assign prm1 1 s1 of Inl e \<Rightarrow> Stop (Raised e) | Inr x \<Rightarrow> h_check 2 x)"
    using nc by (simp add: h_body_def s1_def[symmetric] Let_def)
  have p: "h_fac prm1 = 1" "small_number prm1 > 0" by (simp_all add: prm1_def)
  have hp: "0 < h (part_i st)" "h (part_i st) \<le> 1" "h (part_i st) < h_upper_bound st"
    "h_upper_bound st \<le> 2" using inv by (simp_all add: isolated_inv_def)
  consider (fp) "iteration s1 < 30" | (mid) "iteration s1 = 30"
    | (bis) "30 < iteration s1" "iteration s1 < 150"
    using it f(7) by linarith
  then show ?thesis
  proof cases
    case fp
    then have hu: "h_upper_bound st = 2" using inv f(7) by (simp add: isolated_inv_def)
    define s2 where "s2 = s1\<lparr>part_i := (part_i s1)\<lparr>h := 1\<rparr>\<rparr>"
    have "h_assign prm1 1 s1 = Inr s2"
      using fp by (simp add: h_assign_def Let_def iteration_max_def f p pow_invndim_def s2_def)
    moreover have "h_check 2 s2 = Again s2"
      by (simp add: h_check_def s2_def f hu)
    moreover have "isolated_inv s2"
      using fp by (simp add: isolated_inv_def s2_def f hu)
    ultimately show ?thesis using hb by auto
  next
    case mid
    then have hu: "h_upper_bound st = 2" using inv f(7) by (simp add: isolated_inv_def)
    define s2 where "s2 = s1\<lparr>part_i := (part_i s1)\<lparr>h := 1\<rparr>\<rparr>"
    have "h_assign prm1 1 s1 = Inr s2"
      using mid by (simp add: h_assign_def Let_def iteration_max_def f p s2_def hu)
    moreover have "h_check 2 s2 = Again s2"
      by (simp add: h_check_def s2_def f hu)
    moreover have "isolated_inv s2"
      using mid by (simp add: isolated_inv_def s2_def f hu)
    ultimately show ?thesis using hb by auto
  next
    case bis
    define s2 where "s2 = s1\<lparr>h_upper_bound := h (part_i st),
                             part_i := (part_i s1)\<lparr>h := h (part_i st) / 2\<rparr>\<rparr>"
    have "h_assign prm1 1 s1 = Inr s2"
      using bis by (simp add: h_assign_def Let_def iteration_max_def f p s2_def)
    moreover have "h_check 2 s2 = Again s2"
      using hp by (simp add: h_check_def s2_def f)
    moreover have "isolated_inv s2"
      using bis hp by (simp add: isolated_inv_def s2_def f)
    ultimately show ?thesis using hb by auto
  qed
qed

lemma isolated_run:
  assumes D: "\<And>p. rho (snd (dens p)) = 0 \<and> m (snd (dens p)) = m p \<and>
                   invrho (snd (dens p)) = invrho p \<and> h (snd (dens p)) = h p"
  shows "isolated_inv st \<Longrightarrow> iteration st + int k < 150 \<Longrightarrow>
         \<exists>st'. h_run dens prm1 1 2 k st = Some st' \<and> isolated_inv st'"
proof (induction k arbitrary: st)
  case 0 then show ?case by simp
next
  case (Suc k)
  then have "iteration st + 1 < 150" by simp
  from isolated_step[OF D Suc.prems(1) this] obtain s1 where
    b: "h_body dens prm1 1 2 st = Again s1" and i: "isolated_inv s1" by blast
  have "iteration s1 + int k < 150" using h_body_Again(1)[OF b] Suc.prems(2) by simp
  from Suc.IH[OF i this] show ?case using b by simp
qed

lemma isolated_not_converged:
  assumes D: "\<And>p. rho (snd (dens p)) = 0 \<and> m (snd (dens p)) = m p \<and>
                   invrho (snd (dens p)) = invrho p \<and> h (snd (dens p)) = h p"
  shows "\<not> h_converged prm ndim (h_pre dens st)"
  using D[of "part_i st"] by (simp add: h_converged_def h_pre_def Let_def)

lemma gradh_density_isolated:
  "rho (snd (gradh_density ndim kern 0 m_neib drsqd p)) = 0 \<and>
   m (snd (gradh_density ndim kern 0 m_neib drsqd p)) = m p \<and>
   invrho (snd (gradh_density ndim kern 0 m_neib drsqd p)) = invrho p \<and>
   h (snd (gradh_density ndim kern 0 m_neib drsqd p)) = h p"
  by (simp add: gradh_density_def Let_def)

lemma sm2012_density_isolated:
  "rho (snd (sm2012_density ndim kern 0 m_neib mu drsqd p)) = 0 \<and>
   m (snd (sm2012_density ndim kern 0 m_neib mu drsqd p)) = m p \<and>
   invrho (snd (sm2012_density ndim kern 0 m_neib mu drsqd p)) = invrho p \<and>
   h (snd (sm2012_density ndim kern 0 m_neib mu drsqd p)) = h p"
  by (simp add: sm2012_density_def Let_def)

lemma init_isolated:
  "isolated_inv (gradh_init prm1 2 p0)" "isolated_inv (sm2012_init 2 p0)"
  "iteration (gradh_init prm1 2 p0) = 0" "iteration (sm2012_init 2 p0) = 0"
  by (simp_all add: isolated_inv_def gradh_init_def sm2012_init_def p0_def)

lemma isolated_first_trial:
  assumes D: "\<And>p. rho (snd (dens p)) = 0 \<and> m (snd (dens p)) = m p \<and>
                   invrho (snd (dens p)) = invrho p \<and> h (snd (dens p)) = h p"
    and "iteration st = 0" "m (part_i st) = 1" "invrho (part_i st) = 1"
  shows "\<exists>s2. h_assign prm1 1 (h_pre dens st) = Inr s2 \<and> h (part_i s2) = 1"
  using assms(2-) D[of "part_i st"]
  by (simp add: h_assign_def h_pre_def Let_def iteration_max_def prm1_def pow_invndim_def)

text \<open>
  Claim C3, for \<^verbatim>\<open>GradhSph::ComputeH\<close> and for \<^verbatim>\<open>SM2012Sph::ComputeH\<close>. The routine
  returns the code 0 exactly when, at some pass that the loop reaches, the convergence test
  fails and the trial \<open>h\<close> that the pass assigns exceeds \<open>hmax\<close>; the particle is then
  handed back with that \<open>h\<close>. It ends with the error exactly when 149 passes have each
  asked for another one and the convergence test of pass 150 = 5 \<times> 30 fails; the error is
  the h-rho convergence error.
\<close>

theorem ComputeH_return_zero_and_raise:
  "5 * iteration_max = 150
   \<and> (GradhSph_ComputeH ndim prm kern eos nbody Nneib hmax m_neib drsqd gpot_neib parti
        = Inr (0, p') \<longleftrightarrow>
      (\<exists>k st s2.
         h_run (gradh_density ndim kern Nneib m_neib drsqd) prm ndim hmax k
           (gradh_init prm hmax parti) = Some st \<and>
         \<not> h_converged prm ndim (h_pre (gradh_density ndim kern Nneib m_neib drsqd) st) \<and>
         h_assign prm ndim (h_pre (gradh_density ndim kern Nneib m_neib drsqd) st) = Inr s2 \<and>
         hmax < h (part_i s2) \<and> p' = part_i s2))
   \<and> (GradhSph_ComputeH ndim prm kern eos nbody Nneib hmax m_neib drsqd gpot_neib parti
        = Inl e \<longleftrightarrow>
      e = GandalfError ''Problem with convergence of h-rho iteration'' \<and>
      (\<exists>st.
         h_run (gradh_density ndim kern Nneib m_neib drsqd) prm ndim hmax
           (nat (5 * iteration_max - 1)) (gradh_init prm hmax parti) = Some st \<and>
         \<not> h_converged prm ndim (h_pre (gradh_density ndim kern Nneib m_neib drsqd) st)))
   \<and> (SM2012Sph_ComputeH ndim prm kern eos nbody Nneib hmax m_neib mu drsqd gpot_neib parti
        = Inr (0, p') \<longleftrightarrow>
      (\<exists>k st s2.
         h_run (sm2012_density ndim kern Nneib m_neib mu drsqd) prm ndim hmax k
           (sm2012_init hmax parti) = Some st \<and>
         \<not> h_converged prm ndim (h_pre (sm2012_density ndim kern Nneib m_neib mu drsqd) st) \<and>
         h_assign prm ndim (h_pre (sm2012_density ndim kern Nneib m_neib mu drsqd) st) = Inr s2 \<and>
         hmax < h (part_i s2) \<and> p' = part_i s2))
   \<and> (SM2012Sph_ComputeH ndim prm kern eos nbody Nneib hmax m_neib mu drsqd gpot_neib parti
        = Inl e \<longleftrightarrow>
      e = GandalfError ''Problem with convergence of h-rho iteration'' \<and>
      (\<exists>st.
         h_run (sm2012_density ndim kern Nneib m_neib mu drsqd) prm ndim hmax
           (nat (5 * iteration_max - 1)) (sm2012_init hmax parti) = Some st \<and>
         \<not> h_converged prm ndim (h_pre (sm2012_density ndim kern Nneib m_neib mu drsqd) st)))"
proof -
  have g0: "iteration (gradh_init prm hmax parti) = 0" by (simp add: gradh_init_def)
  have s0: "iteration (sm2012_init hmax parti) = 0" by (simp add: sm2012_init_def)
  have 1: "5 * iteration_max = 150" by (simp add: iteration_max_def)
  have 2: "GradhSph_ComputeH ndim prm kern eos nbody Nneib hmax m_neib drsqd gpot_neib parti
        = Inr (0, p') \<longleftrightarrow>
      (\<exists>k st s2.
         h_run (gradh_density ndim kern Nneib m_neib drsqd) prm ndim hmax k
           (gradh_init prm hmax parti) = Some st \<and>
         \<not> h_converged prm ndim (h_pre (gradh_density ndim kern Nneib m_neib drsqd) st) \<and>
         h_assign prm ndim (h_pre (gradh_density ndim kern Nneib m_neib drsqd) st) = Inr s2 \<and>
         hmax < h (part_i s2) \<and> p' = part_i s2)"
    unfolding GradhSph_ComputeH_zero_iff h_loop_ReturnZero_iff by blast
  have 3: "GradhSph_ComputeH ndim prm kern eos nbody Nneib hmax m_neib drsqd gpot_neib parti
        = Inl e \<longleftrightarrow>
      e = GandalfError ''Problem with convergence of h-rho iteration'' \<and>
      (\<exists>st.
         h_run (gradh_density ndim kern Nneib m_neib drsqd) prm ndim hmax
           (nat (5 * iteration_max - 1)) (gradh_init prm hmax parti) = Some st \<and>
         \<not> h_converged prm ndim (h_pre (gradh_density ndim kern Nneib m_neib drsqd) st))"
    unfolding GradhSph_ComputeH_error_iff by (rule h_loop_Raised_iff[OF g0])
  have 4: "SM2012Sph_ComputeH ndim prm kern eos nbody Nneib hmax m_neib mu drsqd gpot_neib parti
        = Inr (0, p') \<longleftrightarrow>
      (\<exists>k st s2.
         h_run (sm2012_density ndim kern Nneib m_neib mu drsqd) prm ndim hmax k
           (sm2012_init hmax parti) = Some st \<and>
         \<not> h_converged prm ndim (h_pre (sm2012_density ndim kern Nneib m_neib mu drsqd) st) \<and>
         h_assign prm ndim (h_pre (sm2012_density ndim kern Nneib m_neib mu drsqd) st) = Inr s2 \<and>
         hmax < h (part_i s2) \<and> p' = part_i s2)"
    unfolding SM2012Sph_ComputeH_zero_iff h_loop_ReturnZero_iff by blast
  have 5: "SM2012Sph_ComputeH ndim prm kern eos nbody Nneib hmax m_neib mu drsqd gpot_neib parti
        = Inl e \<longleftrightarrow>
      e = GandalfError ''Problem with convergence of h-rho iteration'' \<and>
      (\<exists>st.
         h_run (sm2012_density ndim kern Nneib m_neib mu drsqd) prm ndim hmax
           (nat (5 * iteration_max - 1)) (sm2012_init hmax parti) = Some st \<and>
         \<not> h_converged prm ndim (h_pre (sm2012_density ndim kern Nneib m_neib mu drsqd) st))"
    unfolding SM2012Sph_ComputeH_error_iff by (rule h_loop_Raised_iff[OF s0])
  show ?thesis using 1 2 3 4 5 by blast
qed

theorem ComputeH_return_zero_and_raise_witness:
  "GradhSph_ComputeH 1 prm1 kern0 (Isothermal 2 1 1) nbody0 0 2 (\<lambda>_. 0) (\<lambda>_. 0) (\<lambda>_. 0) p0
     = Inl (GandalfError ''Problem with convergence of h-rho iteration'')
   \<and> (\<exists>p'. GradhSph_ComputeH 1 prm1 kern0 (Isothermal 2 1 1) nbody0 0 (1/2)
              (\<lambda>_. 0) (\<lambda>_. 0) (\<lambda>_. 0) p0 = Inr (0, p') \<and> h p' = 1)
   \<and> SM2012Sph_ComputeH 1 prm1 kern0 (Isothermal 2 1 1) nbody0 0 2 (\<lambda>_. 0) (\<lambda>_. 0) (\<lambda>_. 0)
        (\<lambda>_. 0) p0
     = Inl (GandalfError ''Problem with convergence of h-rho iteration'')
   \<and> (\<exists>p'. SM2012Sph_ComputeH 1 prm1 kern0 (Isothermal 2 1 1) nbody0 0 (1/2)
              (\<lambda>_. 0) (\<lambda>_. 0) (\<lambda>_. 0) (\<lambda>_. 0) p0 = Inr (0, p') \<and> h p' = 1)"
proof -
  let ?G = "gradh_density 1 kern0 0 (\<lambda>_. 0) (\<lambda>_. 0)"
  let ?S = "sm2012_density 1 kern0 0 (\<lambda>_. 0) (\<lambda>_. 0) (\<lambda>_. 0)"
  let ?msg = "GandalfError ''Problem with convergence of h-rho iteration''"
  have n: "nat (5 * iteration_max - 1) = 149" by (simp add: iteration_max_def)
  have DG: "\<And>p. rho (snd (?G p)) = 0 \<and> m (snd (?G p)) = m p \<and>
                  invrho (snd (?G p)) = invrho p \<and> h (snd (?G p)) = h p"
    by (rule gradh_density_isolated)
  have DS: "\<And>p. rho (snd (?S p)) = 0 \<and> m (snd (?S p)) = m p \<and>
                  invrho (snd (?S p)) = invrho p \<and> h (snd (?S p)) = h p"
    by (rule sm2012_density_isolated)
  note TR = ComputeH_return_zero_and_raise[where ndim = 1 and prm = prm1 and kern = kern0
      and eos = "Isothermal 2 1 1" and nbody = nbody0 and Nneib = 0 and hmax = 2
      and m_neib = "\<lambda>_. 0" and mu = "\<lambda>_. 0" and drsqd = "\<lambda>_. 0" and gpot_neib = "\<lambda>_. 0"
      and parti = p0 and e = ?msg]
  note TZ = ComputeH_return_zero_and_raise[where ndim = 1 and prm = prm1 and kern = kern0
      and eos = "Isothermal 2 1 1" and nbody = nbody0 and Nneib = 0 and hmax = "1/2"
      and m_neib = "\<lambda>_. 0" and mu = "\<lambda>_. 0" and drsqd = "\<lambda>_. 0" and gpot_neib = "\<lambda>_. 0"
      and parti = p0]
  \<comment> \<open>the error after 150 passes\<close>
  obtain sg where rg: "h_run ?G prm1 1 2 149 (gradh_init prm1 2 p0) = Some sg"
    using isolated_run[OF DG init_isolated(1), of 149] by (auto simp: init_isolated)
  have ng: "\<not> h_converged prm1 1 (h_pre ?G sg)" by (rule isolated_not_converged[OF DG])
  have c1: "GradhSph_ComputeH 1 prm1 kern0 (Isothermal 2 1 1) nbody0 0 2 (\<lambda>_. 0) (\<lambda>_. 0)
              (\<lambda>_. 0) p0 = Inl ?msg"
    using TR[THEN conjunct2, THEN conjunct2, THEN conjunct1] rg ng n by auto
  obtain ss where rs: "h_run ?S prm1 1 2 149 (sm2012_init 2 p0) = Some ss"
    using isolated_run[OF DS init_isolated(2), of 149] by (auto simp: init_isolated)
  have ns: "\<not> h_converged prm1 1 (h_pre ?S ss)" by (rule isolated_not_converged[OF DS])
  have c3: "SM2012Sph_ComputeH 1 prm1 kern0 (Isothermal 2 1 1) nbody0 0 2 (\<lambda>_. 0) (\<lambda>_. 0)
              (\<lambda>_. 0) (\<lambda>_. 0) p0 = Inl ?msg"
    using TR[THEN conjunct2, THEN conjunct2, THEN conjunct2, THEN conjunct2] rs ns n by auto
  \<comment> \<open>the return code 0 at the first pass\<close>
  have ig: "iteration (gradh_init prm1 (1/2) p0) = 0" "m (part_i (gradh_init prm1 (1/2) p0)) = 1"
    "invrho (part_i (gradh_init prm1 (1/2) p0)) = 1"
    by (simp_all add: gradh_init_def p0_def)
  obtain zg where ag: "h_assign prm1 1 (h_pre ?G (gradh_init prm1 (1/2) p0)) = Inr zg"
    and hg: "h (part_i zg) = 1"
    using isolated_first_trial[OF DG ig] by blast
  have "h_run ?G prm1 1 (1/2) 0 (gradh_init prm1 (1/2) p0) = Some (gradh_init prm1 (1/2) p0)"
    by simp
  moreover have "\<not> h_converged prm1 1 (h_pre ?G (gradh_init prm1 (1/2) p0))"
    by (rule isolated_not_converged[OF DG])
  moreover have "1/2 < h (part_i zg)" using hg by simp
  ultimately have "GradhSph_ComputeH 1 prm1 kern0 (Isothermal 2 1 1) nbody0 0 (1/2) (\<lambda>_. 0)
              (\<lambda>_. 0) (\<lambda>_. 0) p0 = Inr (0, part_i zg)"
    using TZ[where p' = "part_i zg", THEN conjunct2, THEN conjunct1] ag by blast
  then have c2: "\<exists>p'. GradhSph_ComputeH 1 prm1 kern0 (Isothermal 2 1 1) nbody0 0 (1/2)
              (\<lambda>_. 0) (\<lambda>_. 0) (\<lambda>_. 0) p0 = Inr (0, p') \<and> h p' = 1"
    using hg by blast
  have isS: "iteration (sm2012_init (1/2) p0) = 0" "m (part_i (sm2012_init (1/2) p0)) = 1"
    "invrho (part_i (sm2012_init (1/2) p0)) = 1"
    by (simp_all add: sm2012_init_def p0_def)
  obtain zs where asg: "h_assign prm1 1 (h_pre ?S (sm2012_init (1/2) p0)) = Inr zs"
    and hs: "h (part_i zs) = 1"
    using isolated_first_trial[OF DS isS] by blast
  have "h_run ?S prm1 1 (1/2) 0 (sm2012_init (1/2) p0) = Some (sm2012_init (1/2) p0)"
    by simp
  moreover have "\<not> h_converged prm1 1 (h_pre ?S (sm2012_init (1/2) p0))"
    by (rule isolated_not_converged[OF DS])
  moreover have "1/2 < h (part_i zs)" using hs by simp
  ultimately have "SM2012Sph_ComputeH 1 prm1 kern0 (Isothermal 2 1 1) nbody0 0 (1/2) (\<lambda>_. 0)
              (\<lambda>_. 0) (\<lambda>_. 0) (\<lambda>_. 0) p0 = Inr (0, part_i zs)"
    using TZ[where p' = "part_i zs", THEN conjunct2, THEN conjunct2, THEN conjunct2,
             THEN conjunct1] asg by blast
  then have c4: "\<exists>p'. SM2012Sph_ComputeH 1 prm1 kern0 (Isothermal 2 1 1) nbody0 0 (1/2)
              (\<lambda>_. 0) (\<lambda>_. 0) (\<lambda>_. 0) (\<lambda>_. 0) p0 = Inr (0, p') \<and> h p' = 1"
    using hs by blast
  show ?thesis using c1 c2 c3 c4 by blast
qed

lemma too_large_iff:
  assumes "0 < ndim" "0 < x_rho" "0 < x_h" "0 \<le> x_m" "0 \<le> x_hfac"
  shows "x_rho * x_h ^ ndim > x_hfac ^ ndim * x_m \<longleftrightarrow>
         x_h > x_hfac * pow_invndim ndim (x_m * (1 / x_rho))"
proof -
  define t where "t = x_hfac * root ndim (x_m / x_rho)"
  have x0: "0 \<le> x_m / x_rho" using assms by simp
  have t0: "0 \<le> t" using assms x0 by (simp add: t_def)
  have tn: "t ^ ndim = x_hfac ^ ndim * (x_m / x_rho)"
    using real_root_pow_pos2[OF assms(1) x0] by (simp add: t_def power_mult_distrib)
  have "x_h > t \<longleftrightarrow> x_h ^ ndim > t ^ ndim"
    using t0 assms(1,3) by (metis less_imp_le power_less_imp_less_base power_strict_mono
        not_less_iff_gr_or_eq neq0_conv)
  also have "\<dots> \<longleftrightarrow> x_h ^ ndim > x_hfac ^ ndim * x_m / x_rho" by (simp add: tn)
  also have "\<dots> \<longleftrightarrow> x_rho * x_h ^ ndim > x_hfac ^ ndim * x_m"
    using assms(2) by (simp add: divide_less_eq mult.commute)
  finally show ?thesis by (simp add: t_def pow_invndim_def)
qed

text \<open>
  Claim C4 fails on the code as stated: in the bisection phase \<open>\<rho> h\<^sup>d > h_fac\<^sup>d m\<close> makes
  the current \<open>h\<close> the new upper bound, not the new lower bound. In the state
  \<open>st_bisect\<close> (pass 31, bracket \<open>[0, 4]\<close>, \<open>h = 2\<close>, \<open>\<rho> = 1\<close>, \<open>m = 1\<close>,
  \<open>h_fac = 1\<close>, \<open>d = 1\<close>) the test holds, and the code leaves the lower bound at \<open>0\<close>,
  sets the upper bound to \<open>2\<close> and \<open>h\<close> to \<open>1\<close>.
\<close>

theorem bisection_sets_upper_bound:
  "iteration_max < iteration st_bisect \<and> iteration st_bisect < 5 * iteration_max
   \<and> rho (part_i st_bisect) * h (part_i st_bisect) ^ 1 > h_fac prm1 ^ 1 * m (part_i st_bisect)
   \<and> (case h_assign prm1 1 st_bisect of
        Inl e \<Rightarrow> False
      | Inr st' \<Rightarrow> h_lower_bound st' \<noteq> h (part_i st_bisect) \<and>
                  h_lower_bound st' = h_lower_bound st_bisect \<and>
                  h_upper_bound st' = h (part_i st_bisect) \<and>
                  h (part_i st') = 1)"
  by (simp add: h_assign_def Let_def iteration_max_def st_bisect_def p0_def prm1_def)

text \<open>
  The density test of the bisection phase stands before the product test: with
  \<open>\<rho> < small_number\<close> the current \<open>h\<close> becomes the upper bound whatever its size. In
  \<open>st_sparse\<close> (\<open>\<rho> = 10\<^sup>-\<^sup>2\<^sup>1\<close>, \<open>h = 2\<close>, \<open>m = 1\<close>, \<open>h_fac = 1\<close>, \<open>d = 1\<close>) the
  product test fails and \<open>h\<close> is below the target \<open>h_fac (m/\<rho>)\<^sup>1\<^sup>/\<^sup>d = 10\<^sup>2\<^sup>1\<close>, and the
  upper bound is set to \<open>h\<close> all the same.
\<close>

lemma bisection_small_density:
  "rho (part_i st_sparse) < small_number prm1
   \<and> \<not> rho (part_i st_sparse) * h (part_i st_sparse) ^ 1
         > h_fac prm1 ^ 1 * m (part_i st_sparse)
   \<and> h (part_i st_sparse)
        < h_fac prm1 * pow_invndim 1 (m (part_i st_sparse) * (1 / rho (part_i st_sparse)))
   \<and> (case h_assign prm1 1 st_sparse of
        Inl e \<Rightarrow> False
      | Inr st' \<Rightarrow> h_upper_bound st' = h (part_i st_sparse) \<and>
                  h_lower_bound st' = h_lower_bound st_sparse \<and>
                  h (part_i st') = 1)"
  by (simp add: h_assign_def Let_def iteration_max_def st_sparse_def p0_def prm1_def
      pow_invndim_def)

text \<open>
  Claim C4 as amended. In the bisection phase (passes 31 to 149) the chain that assigns the
  next \<open>h\<close> classifies the current \<open>h\<close> by the test \<open>\<rho> h\<^sup>d > h_fac\<^sup>d m\<close>, which for
  positive \<open>\<rho>\<close> and \<open>h\<close> says that \<open>h\<close> is larger than the target
  \<open>h_fac (m/\<rho>)\<^sup>1\<^sup>/\<^sup>d\<close>, that is, too large: then \<open>h\<close> becomes the new upper bound of the
  bracket and the lower bound stays. The current \<open>h\<close> becomes the new upper bound also
  when \<open>\<rho> < small_number\<close>, whatever the product test says. In the remaining case
  (\<open>\<rho> \<ge> small_number\<close> and \<open>\<rho> h\<^sup>d \<le> h_fac\<^sup>d m\<close>) \<open>h\<close> becomes the new lower bound
  and the upper bound stays. Then \<open>h\<close> is set to the midpoint of the new bracket.
\<close>

theorem bisection_step:
  assumes "iteration_max < iteration st" and "iteration st < 5 * iteration_max"
  shows "(\<exists>st'. h_assign prm ndim st = Inr st' \<and> iteration st' = iteration st \<and>
            (if rho (part_i st) < small_number prm \<or>
                rho (part_i st) * h (part_i st) ^ ndim > h_fac prm ^ ndim * m (part_i st)
             then h_upper_bound st' = h (part_i st) \<and> h_lower_bound st' = h_lower_bound st
             else h_lower_bound st' = h (part_i st) \<and> h_upper_bound st' = h_upper_bound st) \<and>
            h (part_i st') = 0.5 * (h_lower_bound st' + h_upper_bound st'))
         \<and> (0 < ndim \<and> 0 < rho (part_i st) \<and> 0 < h (part_i st) \<and> 0 \<le> m (part_i st) \<and>
            0 \<le> h_fac prm \<longrightarrow>
              (rho (part_i st) * h (part_i st) ^ ndim > h_fac prm ^ ndim * m (part_i st)
               \<longleftrightarrow> h (part_i st) >
                     h_fac prm * pow_invndim ndim (m (part_i st) * (1 / rho (part_i st)))))"
proof (intro conjI impI)
  show "\<exists>st'. h_assign prm ndim st = Inr st' \<and> iteration st' = iteration st \<and>
            (if rho (part_i st) < small_number prm \<or>
                rho (part_i st) * h (part_i st) ^ ndim > h_fac prm ^ ndim * m (part_i st)
             then h_upper_bound st' = h (part_i st) \<and> h_lower_bound st' = h_lower_bound st
             else h_lower_bound st' = h (part_i st) \<and> h_upper_bound st' = h_upper_bound st) \<and>
            h (part_i st') = 0.5 * (h_lower_bound st' + h_upper_bound st')"
    using assms by (simp add: h_assign_def Let_def)
next
  assume "0 < ndim \<and> 0 < rho (part_i st) \<and> 0 < h (part_i st) \<and> 0 \<le> m (part_i st) \<and>
            0 \<le> h_fac prm"
  then show "rho (part_i st) * h (part_i st) ^ ndim > h_fac prm ^ ndim * m (part_i st)
               \<longleftrightarrow> h (part_i st) >
                     h_fac prm * pow_invndim ndim (m (part_i st) * (1 / rho (part_i st)))"
    using too_large_iff by blast
qed

lemma st_bisect_vals:
  "iteration st_bisect = 31" "rho (part_i st_bisect) = 1" "h (part_i st_bisect) = 2"
  "m (part_i st_bisect) = 1" "h_lower_bound st_bisect = 0" "h_upper_bound st_bisect = 4"
  "h_fac prm1 = 1" "small_number prm1 = 1 / 10 ^ 20"
  by (simp_all add: st_bisect_def p0_def prm1_def)


theorem bisection_step_witness:
  "iteration_max < iteration st_bisect \<and> iteration st_bisect < 5 * iteration_max
   \<and> (\<exists>st'. h_assign prm1 1 st_bisect = Inr st' \<and> h_upper_bound st' = 2 \<and>
            h_lower_bound st' = 0 \<and> h (part_i st') = 1)
   \<and> h (part_i st_bisect) >
        h_fac prm1 * pow_invndim 1 (m (part_i st_bisect) * (1 / rho (part_i st_bisect)))"
proof -
  have h1: "iteration_max < iteration st_bisect" and h2: "iteration st_bisect < 5 * iteration_max"
    by (simp_all add: st_bisect_vals iteration_max_def)
  have big: "rho (part_i st_bisect) * h (part_i st_bisect) ^ 1
               > h_fac prm1 ^ 1 * m (part_i st_bisect)"
    by (simp add: st_bisect_vals)
  have pos: "0 < (1::nat) \<and> 0 < rho (part_i st_bisect) \<and> 0 < h (part_i st_bisect) \<and>
             0 \<le> m (part_i st_bisect) \<and> 0 \<le> h_fac prm1"
    by (simp add: st_bisect_vals)
  note T = bisection_step[OF h1 h2, of prm1 1]
  from T[THEN conjunct1] big obtain st' where
    "h_assign prm1 1 st_bisect = Inr st'" "h_upper_bound st' = h (part_i st_bisect)"
    "h_lower_bound st' = h_lower_bound st_bisect"
    "h (part_i st') = 0.5 * (h_lower_bound st' + h_upper_bound st')"
    by auto
  then have a: "\<exists>st'. h_assign prm1 1 st_bisect = Inr st' \<and> h_upper_bound st' = 2 \<and>
            h_lower_bound st' = 0 \<and> h (part_i st') = 1"
    by (auto simp: st_bisect_vals)
  have b: "h (part_i st_bisect) >
        h_fac prm1 * pow_invndim 1 (m (part_i st_bisect) * (1 / rho (part_i st_bisect)))"
    using T[THEN conjunct2, rule_format, OF pos] big by blast
  show ?thesis using h1 h2 a b by blast
qed

section \<open>Verification: the tournament calendar\<close>

lemma cong_iff_dvd:
  fixes x y M :: nat
  shows "x mod M = y mod M \<longleftrightarrow> int M dvd (int x - int y)"
proof -
  have "x mod M = y mod M \<longleftrightarrow> int (x mod M) = int (y mod M)" by simp
  also have "\<dots> \<longleftrightarrow> int x mod int M = int y mod int M" by (simp add: zmod_int)
  also have "\<dots> \<longleftrightarrow> int M dvd (int x - int y)" by (rule mod_eq_dvd_iff)
  finally show ?thesis .
qed

lemma odd_dvd_double:
  assumes "odd M" "int M dvd 2 * z"
  shows "int M dvd z"
proof -
  have "coprime (int M) 2" using assms(1) by simp
  then show ?thesis using assms(2) by (simp add: coprime_dvd_mult_right_iff)
qed

lemma small_dvd:
  assumes "int M dvd (int x - int y)" "x < M" "y < M"
  shows "x = y"
proof (rule ccontr)
  assume "x \<noteq> y"
  then have nz: "int x - int y \<noteq> 0" by simp
  have "\<bar>int x - int y\<bar> < int M" using assms(2,3) by linarith
  then show False using assms(1) nz by (meson zdvd_not_zless abs_of_pos dvd_abs_iff
        not_less_iff_gr_or_eq zero_less_abs_iff)
qed

lemma third_iff:
  assumes "x \<le> M" "0 < M"
  shows "(2 * t + M - x) mod M = y \<longleftrightarrow> y < M \<and> int M dvd (2 * int t - int x - int y)"
proof -
  have e: "int (2 * t + M - x) - int y = (2 * int t - int x - int y) + int M"
    using assms(1) by (simp add: of_nat_diff)
  have c: "(2 * t + M - x) mod M = y mod M \<longleftrightarrow> int M dvd (2 * int t - int x - int y)"
    unfolding cong_iff_dvd e by simp
  show ?thesis
  proof
    assume h: "(2 * t + M - x) mod M = y"
    then have "y < M" using assms(2) by (metis mod_less_divisor)
    then show "y < M \<and> int M dvd (2 * int t - int x - int y)" using c h by simp
  next
    assume "y < M \<and> int M dvd (2 * int t - int x - int y)"
    then show "(2 * t + M - x) mod M = y" using c by simp
  qed
qed

lemma opponent_le:
  assumes "t < M" "x \<le> M"
  shows "opponent M t x \<le> M"
  using assms by (auto simp: opponent_def intro: less_imp_le)

lemma opponent_neq:
  assumes "odd M" "t < M" "x \<le> M"
  shows "opponent M t x \<noteq> x"
proof (cases "x = M \<or> x = t")
  case True then show ?thesis using assms by (auto simp: opponent_def)
next
  case False
  then have xl: "x < M" using assms by simp
  have "(2 * t + M - x) mod M \<noteq> x"
  proof
    assume "(2 * t + M - x) mod M = x"
    then have "int M dvd (2 * int t - int x - int x)"
      using third_iff[of x M t x] assms xl by simp
    then have "int M dvd 2 * (int t - int x)" by (simp add: algebra_simps)
    then have "int M dvd (int t - int x)" using odd_dvd_double assms(1) by blast
    then have "t = x" using small_dvd assms(2) xl by blast
    then show False using False by simp
  qed
  then show ?thesis using False by (simp add: opponent_def)
qed

lemma opponent_invol:
  assumes "odd M" "t < M" "x \<le> M"
  shows "opponent M t (opponent M t x) = x"
proof (cases "x = M \<or> x = t")
  case True then show ?thesis using assms by (auto simp: opponent_def)
next
  case False
  then have xl: "x < M" and xt: "x \<noteq> t" and xM: "x \<noteq> M" using assms by simp_all
  define y where "y = (2 * t + M - x) mod M"
  have M0: "0 < M" using assms(2) by simp
  have y: "y < M" "int M dvd (2 * int t - int x - int y)"
    using third_iff[of x M t y] xl M0 by (simp_all add: y_def)
  have yt: "y \<noteq> t"
  proof
    assume "y = t"
    then have "int M dvd (int t - int x)" using y(2) by (simp add: algebra_simps)
    then show False using small_dvd assms(2) xl xt by blast
  qed
  have "int M dvd (2 * int t - int y - int x)" using y(2) by (simp add: algebra_simps)
  then have "(2 * t + M - y) mod M = x" using third_iff[of y M t x] y(1) xl M0 by simp
  then have "opponent M t y = x" using yt y(1) by (simp add: opponent_def)
  moreover have "opponent M t x = y" using xt xM by (simp add: opponent_def y_def)
  ultimately show ?thesis by simp
qed

lemma opponent_unique:
  assumes "odd M" "t < M" "s < M" "x \<le> M" "opponent M t x = opponent M s x"
  shows "t = s"
proof (cases "x = M")
  case True then show ?thesis using assms by (simp add: opponent_def)
next
  case False
  then have xl: "x < M" using assms by simp
  have M0: "0 < M" using assms(2) by simp
  show ?thesis
  proof (cases "x = t")
    case True
    then have "opponent M s x = M" using assms(5) False by (simp add: opponent_def)
    then show ?thesis using True False M0
      by (auto simp: opponent_def split: if_splits)
        (metis mod_less_divisor less_irrefl)
  next
    case xt: False
    show ?thesis
    proof (cases "x = s")
      case True
      then have "opponent M t x = M" using assms(5) False by (simp add: opponent_def)
      then show ?thesis using True False M0 xt
        by (auto simp: opponent_def split: if_splits) (metis mod_less_divisor less_irrefl)
    next
      case xs: False
      define y where "y = (2 * t + M - x) mod M"
      have y1: "(2 * t + M - x) mod M = y" by (simp add: y_def)
      have y2: "(2 * s + M - x) mod M = y"
        using assms(5) xt xs False by (simp add: opponent_def y_def)
      have "int M dvd (2 * int t - int x - int y)" "int M dvd (2 * int s - int x - int y)"
        using third_iff[of x M t y] third_iff[of x M s y] y1 y2 xl M0 by simp_all
      then have "int M dvd ((2 * int t - int x - int y) - (2 * int s - int x - int y))"
        by (rule dvd_diff)
      then have "int M dvd 2 * (int t - int s)" by (simp add: algebra_simps)
      then have "int M dvd (int t - int s)" using odd_dvd_double assms(1) by blast
      then show ?thesis using small_dvd assms(2,3) by blast
    qed
  qed
qed

lemma opponent_meets:
  assumes "odd M" "x \<le> M" "y \<le> M" "x \<noteq> y"
  shows "\<exists>t<M. opponent M t x = y"
proof -
  have M0: "0 < M" using assms(1) by (cases M) auto
  show ?thesis
  proof (cases "x = M")
    case True
    then have "y < M" using assms by simp
    then show ?thesis using True by (auto simp: opponent_def)
  next
    case xM: False
    then have xl: "x < M" using assms by simp
    show ?thesis
    proof (cases "y = M")
      case True
      then show ?thesis using xl xM by (auto simp: opponent_def intro!: exI[of _ x])
    next
      case False
      then have yl: "y < M" using assms by simp
      define k where "k = (M + 1) div 2"
      define t where "t = ((x + y) * k) mod M"
      have tl: "t < M" using M0 by (simp add: t_def)
      have "2 * k = M + 1" using assms(1) by (simp add: k_def odd_iff_mod_2_eq_one)
      then have "int (2 * k) = int (M + 1)" by simp
      then have k2: "2 * int k = int M + 1" by simp
      have "((x + y) * k) mod M = t mod M" by (simp add: t_def)
      then have "int M dvd (int ((x + y) * k) - int t)" unfolding cong_iff_dvd .
      then have d2: "int M dvd 2 * (int ((x + y) * k) - int t)" by (rule dvd_mult)
      have e1: "2 * (int ((x + y) * k) - int t)
                       = (int x + int y) * (2 * int k) - 2 * int t"
        by (simp add: algebra_simps)
      have e2: "(int x + int y) * (2 * int k) - 2 * int t
                       = int M * (int x + int y) + (int x + int y - 2 * int t)"
        unfolding k2 by (simp add: algebra_simps)
      have "int M dvd (int M * (int x + int y) + (int x + int y - 2 * int t))"
        using d2 unfolding e1 e2 .
      moreover have "int M dvd int M * (int x + int y)" by simp
      ultimately have "int M dvd (int x + int y - 2 * int t)"
        using dvd_add_right_iff by blast
      then have "int M dvd - (int x + int y - 2 * int t)" by (simp only: dvd_minus_iff)
      then have d: "int M dvd (2 * int t - int x - int y)" by (simp add: algebra_simps)
      have tx: "x \<noteq> t"
      proof
        assume "x = t"
        then have "int M dvd (int x - int y)" using d by (simp add: algebra_simps)
        then show False using small_dvd xl yl assms(4) by blast
      qed
      have "(2 * t + M - x) mod M = y" using third_iff[of x M t y] xl M0 yl d by simp
      then have "opponent M t x = y" using tx xM by (simp add: opponent_def)
      then show ?thesis using tl by blast
    qed
  qed
qed

lemma fold_update_length: "length (fold (\<lambda>i pt. pt[i := f i]) js xs) = length xs"
  by (induction js arbitrary: xs) simp_all

lemma fold_update_nth:
  "j < length xs \<Longrightarrow>
   fold (\<lambda>i pt. pt[i := f i]) js xs ! j = (if j \<in> set js then f j else xs ! j)"
  by (induction js arbitrary: xs) (auto simp: nth_list_update)

lemma pairs_turn_length: "length (pairs_turn N t) = N"
  by (simp add: pairs_turn_def fold_update_length)

lemma pairs_turn_0: "0 < N \<Longrightarrow> pairs_turn N t ! 0 = N - 1"
  by (simp add: pairs_turn_def fold_update_nth)

lemma pairs_turn_nth: "0 < i \<Longrightarrow> i < N \<Longrightarrow> pairs_turn N t ! i = (i + t) mod (N - 1)"
  by (simp add: pairs_turn_def fold_update_nth)


lemma calendar_step_nth:
  assumes "shape N cal" "pt ! s < N" "pt ! (length pt - 1 - s) < N" "t < N - 1"
    "x < N" "t' < N - 1"
  shows "calendar_step t pt s cal ! x ! t' =
           (if x = pt ! (length pt - 1 - s) \<and> t' = t then pt ! s
            else if x = pt ! s \<and> t' = t then pt ! (length pt - 1 - s)
            else cal ! x ! t')"
  using assms by (auto simp: calendar_step_def Let_def shape_def nth_list_update)

lemma calendar_step_shape:
  assumes "shape N cal" "pt ! s < N" "pt ! (length pt - 1 - s) < N"
  shows "shape N (calendar_step t pt s cal)"
  using assms by (auto simp: calendar_step_def Let_def shape_def nth_list_update)

text \<open>The two teams of a step are each other's opponents.\<close>

lemma step_teams:
  assumes ev: "even N" and N2: "2 \<le> N" and t: "t < N - 1" and s: "s < N div 2"
  defines "pt \<equiv> pairs_turn N t"
  shows "pt ! s \<le> N - 1" and "pt ! (N - 1 - s) \<le> N - 1"
    and "opponent (N - 1) t (pt ! s) = pt ! (N - 1 - s)"
    and "opponent (N - 1) t (pt ! (N - 1 - s)) = pt ! s"
proof -
  define M where "M = N - 1"
  have M0: "0 < M" and NM: "N = M + 1" using N2 by (simp_all add: M_def)
  have tM: "t < M" using t by (simp add: M_def)
  have sM: "s < M" using s ev N2 NM by presburger
  have both: "pt ! s \<le> M \<and> pt ! (M - s) \<le> M \<and>
              opponent M t (pt ! s) = pt ! (M - s) \<and> opponent M t (pt ! (M - s)) = pt ! s"
  proof (cases "s = 0")
    case True
    have "pt ! 0 = M" using pairs_turn_0[of N t] N2 by (simp add: pt_def M_def)
    moreover have "pt ! M = t"
      using pairs_turn_nth[of M N t] M0 NM tM by (simp add: pt_def)
    ultimately show ?thesis using True tM by (simp add: opponent_def)
  next
    case False
    then have s0: "0 < s" by simp
    define f where "f = (s + t) mod M"
    define g where "g = (M - s + t) mod M"
    have pf: "pt ! s = f"
      using pairs_turn_nth[of s N t] s0 sM NM by (simp add: pt_def f_def)
    have pg: "pt ! (M - s) = g"
      using pairs_turn_nth[of "M - s" N t] s0 sM NM by (simp add: pt_def g_def)
    have fl: "f < M" and gl: "g < M" using M0 by (simp_all add: f_def g_def)
    have "f mod M = (s + t) mod M" by (simp add: f_def)
    then have df: "int M dvd (int f - int (s + t))" unfolding cong_iff_dvd .
    have "g mod M = (M - s + t) mod M" by (simp add: g_def)
    then have dg: "int M dvd (int g - int (M - s + t))" unfolding cong_iff_dvd .
    have eg: "int (M - s + t) = int M - int s + int t" using sM by (simp add: of_nat_diff)
    have ft: "f \<noteq> t"
    proof
      assume "f = t"
      then have "int M dvd (int 0 - int s)" using df by (simp add: algebra_simps)
      then have "0 = s" using small_dvd[of M 0 s] M0 sM by blast
      then show False using s0 by simp
    qed
    have gt: "g \<noteq> t"
    proof
      assume "g = t"
      then have "int M dvd (int s - int M)" using dg eg
        by (simp add: algebra_simps)
      then obtain c where "int s - int M = int M * c" by (rule dvdE)
      then have "int s = int M * (c + 1)" by (simp add: algebra_simps)
      then have "int M dvd int s" by simp
      then have "int M dvd (int s - int 0)" by simp
      then have "s = 0" using small_dvd[of M s 0] M0 sM by blast
      then show False using s0 by simp
    qed
    have "int M dvd ((int f - int (s + t)) + (int g - int (M - s + t)))"
      using df dg by (rule dvd_add)
    then have "int M dvd - ((int f - int (s + t)) + (int g - int (M - s + t)))"
      by (simp only: dvd_minus_iff)
    then have "int M dvd ((2 * int t - int f - int g) + int M)"
      unfolding eg by (simp add: algebra_simps)
    then have d: "int M dvd (2 * int t - int f - int g)" by simp
    then have d': "int M dvd (2 * int t - int g - int f)" by (simp add: algebra_simps)
    have "(2 * t + M - f) mod M = g" using third_iff[of f M t g] fl gl M0 d by simp
    then have o1: "opponent M t f = g" using ft fl by (simp add: opponent_def)
    have "(2 * t + M - g) mod M = f" using third_iff[of g M t f] fl gl M0 d' by simp
    then have o2: "opponent M t g = f" using gt gl by (simp add: opponent_def)
    show ?thesis using pf pg fl gl o1 o2 by simp
  qed
  show "pt ! s \<le> N - 1" and "pt ! (N - 1 - s) \<le> N - 1"
    and "opponent (N - 1) t (pt ! s) = pt ! (N - 1 - s)"
    and "opponent (N - 1) t (pt ! (N - 1 - s)) = pt ! s"
    using both by (simp_all add: M_def)
qed

text \<open>Every team is one of the two teams of some step.\<close>

lemma step_covers:
  assumes ev: "even N" and N2: "2 \<le> N" and t: "t < N - 1" and x: "x \<le> N - 1"
  shows "\<exists>s < N div 2. x = pairs_turn N t ! s \<or> x = pairs_turn N t ! (N - 1 - s)"
proof -
  define M where "M = N - 1"
  have M0: "0 < M" and NM: "N = M + 1" using N2 by (simp_all add: M_def)
  have tM: "t < M" using t by (simp add: M_def)
  have half: "0 < N div 2" using N2 by simp
  show ?thesis
  proof (cases "x = M")
    case True
    then have "x = pairs_turn N t ! 0" using pairs_turn_0[of N t] N2 by (simp add: M_def)
    then show ?thesis using half by blast
  next
    case False
    then have xM: "x < M" using x by (simp add: M_def)
    define i0 where "i0 = (x + M - t) mod M"
    define i where "i = (if i0 = 0 then M else i0)"
    have i1: "0 < i" and iM: "i \<le> M" using M0 by (auto simp: i_def i0_def intro: less_imp_le)
    have "(i + t) mod M = x"
    proof -
      have "(i0 + t) mod M = ((x + M - t) + t) mod M"
        unfolding i0_def by (simp add: mod_add_left_eq)
      also have "\<dots> = (x + M) mod M" using tM by simp
      also have "\<dots> = x" using xM by simp
      finally have e0: "(i0 + t) mod M = x" .
      show ?thesis
      proof (cases "i0 = 0")
        case True
        then have "t mod M = x" using e0 by simp
        then show ?thesis using True by (simp add: i_def)
      next
        case False
        then show ?thesis using e0 by (simp add: i_def)
      qed
    qed
    then have pi: "pairs_turn N t ! i = x"
      using pairs_turn_nth[of i N t] i1 iM NM by simp
    show ?thesis
    proof (cases "i < N div 2")
      case True
      then show ?thesis using pi by blast
    next
      case False
      then have l: "N - 1 - i < N div 2" using ev N2 iM NM by presburger
      have "N - 1 - (N - 1 - i) = i" using iM NM by simp
      then have "x = pairs_turn N t ! (N - 1 - (N - 1 - i))" using pi by simp
      then show ?thesis using l by blast
    qed
  qed
qed

lemma upt_fold_Suc: "fold f [0..<Suc k] x = f k (fold f [0..<k] x)"
  by simp

lemma calendar_turn_correct:
  assumes ev: "even N" and N2: "2 \<le> N" and t: "t < N - 1" and sh: "shape N cal"
  shows "shape N (calendar_turn N t cal)"
    and "\<And>x. x < N \<Longrightarrow> calendar_turn N t cal ! x ! t = opponent (N - 1) t x"
    and "\<And>x t'. x < N \<Longrightarrow> t' < N - 1 \<Longrightarrow> t' \<noteq> t \<Longrightarrow>
           calendar_turn N t cal ! x ! t' = cal ! x ! t'"
proof -
  define pt where "pt = pairs_turn N t"
  define run where "run = (\<lambda>k. fold (calendar_step t pt) [0..<k] cal)"
  have lp: "length pt = N" by (simp add: pt_def pairs_turn_length)
  have inv: "k \<le> N div 2 \<Longrightarrow>
     shape N (run k) \<and>
     (\<forall>s<k. run k ! (pt ! s) ! t = opponent (N - 1) t (pt ! s) \<and>
            run k ! (pt ! (N - 1 - s)) ! t = opponent (N - 1) t (pt ! (N - 1 - s))) \<and>
     (\<forall>x<N. \<forall>t'<N - 1. t' \<noteq> t \<longrightarrow> run k ! x ! t' = cal ! x ! t')" for k
  proof (induction k)
    case 0
    then show ?case using sh by (simp add: run_def)
  next
    case (Suc k)
    then have k: "k < N div 2" and IH: "shape N (run k)"
      "\<forall>s<k. run k ! (pt ! s) ! t = opponent (N - 1) t (pt ! s) \<and>
            run k ! (pt ! (N - 1 - s)) ! t = opponent (N - 1) t (pt ! (N - 1 - s))"
      "\<forall>x<N. \<forall>t'<N - 1. t' \<noteq> t \<longrightarrow> run k ! x ! t' = cal ! x ! t'"
      by simp_all
    have rs: "run (Suc k) = calendar_step t pt k (run k)" by (simp add: run_def)
    note T = step_teams[OF ev N2 t k, folded pt_def]
    have fN: "pt ! k < N" and gN: "pt ! (length pt - 1 - k) < N"
      using T(1,2) N2 lp by simp_all
    have nth: "x < N \<Longrightarrow> t' < N - 1 \<Longrightarrow> run (Suc k) ! x ! t' =
           (if x = pt ! (N - 1 - k) \<and> t' = t then pt ! k
            else if x = pt ! k \<and> t' = t then pt ! (N - 1 - k)
            else run k ! x ! t')" for x t'
      unfolding rs using calendar_step_nth[OF IH(1) fN gN t, of x t'] lp by simp
    have keep: "x < N \<Longrightarrow> run k ! x ! t = opponent (N - 1) t x \<Longrightarrow>
                run (Suc k) ! x ! t = opponent (N - 1) t x" for x
      using nth[of x t] t T(3,4) by auto
    have new1: "run (Suc k) ! (pt ! k) ! t = opponent (N - 1) t (pt ! k)"
      using nth[of "pt ! k" t] fN t T(3,4) by auto
    have new2: "run (Suc k) ! (pt ! (N - 1 - k)) ! t = opponent (N - 1) t (pt ! (N - 1 - k))"
      using nth[of "pt ! (N - 1 - k)" t] gN lp t T(3,4) by auto
    have old: "\<forall>s<Suc k. run (Suc k) ! (pt ! s) ! t = opponent (N - 1) t (pt ! s) \<and>
            run (Suc k) ! (pt ! (N - 1 - s)) ! t = opponent (N - 1) t (pt ! (N - 1 - s))"
    proof (intro allI impI)
      fix s assume "s < Suc k"
      show "run (Suc k) ! (pt ! s) ! t = opponent (N - 1) t (pt ! s) \<and>
            run (Suc k) ! (pt ! (N - 1 - s)) ! t = opponent (N - 1) t (pt ! (N - 1 - s))"
      proof (cases "s = k")
        case True then show ?thesis using new1 new2 by simp
      next
        case False
        then have sk: "s < k" using \<open>s < Suc k\<close> by simp
        then have s2: "s < N div 2" using k by simp
        note Ts = step_teams[OF ev N2 t s2, folded pt_def]
        have "pt ! s < N" "pt ! (N - 1 - s) < N" using Ts(1,2) N2 by simp_all
        then show ?thesis using keep IH(2) sk by blast
      qed
    qed
    have other: "\<forall>x<N. \<forall>t'<N - 1. t' \<noteq> t \<longrightarrow> run (Suc k) ! x ! t' = cal ! x ! t'"
    proof (intro allI impI)
      fix x t' assume xt: "x < N" "t' < N - 1" "t' \<noteq> t"
      then have "run (Suc k) ! x ! t' = run k ! x ! t'" using nth[of x t'] by simp
      then show "run (Suc k) ! x ! t' = cal ! x ! t'" using IH(3) xt by simp
    qed
    have "shape N (run (Suc k))" unfolding rs using IH(1) fN gN by (rule calendar_step_shape)
    then show ?case using old other by blast
  qed
  have fin: "calendar_turn N t cal = run (N div 2)"
    by (simp add: calendar_turn_def run_def pt_def)
  note I = inv[of "N div 2", simplified]
  show "shape N (calendar_turn N t cal)" using I fin by simp
  show "calendar_turn N t cal ! x ! t = opponent (N - 1) t x" if "x < N" for x
  proof -
    have "x \<le> N - 1" using that by simp
    from step_covers[OF ev N2 t this] obtain s where
      "s < N div 2" "x = pt ! s \<or> x = pt ! (N - 1 - s)" unfolding pt_def by blast
    then show ?thesis using I fin by auto
  qed
  show "calendar_turn N t cal ! x ! t' = cal ! x ! t'"
    if "x < N" "t' < N - 1" "t' \<noteq> t" for x t'
    using I fin that by simp
qed

lemma calendar_all_turns:
  assumes ev: "even N" and N2: "2 \<le> N" and "T \<le> N - 1"
  shows "shape N (fold (calendar_turn N) [0..<T] (replicate N (replicate (N - 1) 0))) \<and>
         (\<forall>t<T. \<forall>x<N. fold (calendar_turn N) [0..<T] (replicate N (replicate (N - 1) 0)) ! x ! t
                       = opponent (N - 1) t x)"
  using assms(3)
proof (induction T)
  case 0
  then show ?case by (simp add: shape_def)
next
  case (Suc T)
  define c where "c = fold (calendar_turn N) [0..<T] (replicate N (replicate (N - 1) 0))"
  have IH: "shape N c" "\<forall>t<T. \<forall>x<N. c ! x ! t = opponent (N - 1) t x"
    using Suc by (simp_all add: c_def)
  have T: "T < N - 1" using Suc.prems by simp
  have e: "fold (calendar_turn N) [0..<Suc T] (replicate N (replicate (N - 1) 0))
             = calendar_turn N T c" by (simp add: c_def)
  note C = calendar_turn_correct[OF ev N2 T IH(1)]
  have "\<forall>t<Suc T. \<forall>x<N. calendar_turn N T c ! x ! t = opponent (N - 1) t x"
  proof (intro allI impI)
    fix t x assume "t < Suc T" "x < N"
    show "calendar_turn N T c ! x ! t = opponent (N - 1) t x"
    proof (cases "t = T")
      case True then show ?thesis using C(2) \<open>x < N\<close> by simp
    next
      case False
      then have "t < T" using \<open>t < Suc T\<close> by simp
      moreover have "t < N - 1" using \<open>t < T\<close> T by simp
      ultimately show ?thesis using C(3)[OF \<open>x < N\<close> _ False] IH(2) \<open>x < N\<close> by simp
    qed
  qed
  then show ?case unfolding e using C(1) by simp
qed

text \<open>
  Claim C9. For every even number of workers \<open>Nmpi \<ge> 2\<close> the calendar that
  \<^verbatim>\<open>CreateLeagueCalendar\<close> builds has a row of \<open>Nmpi - 1\<close> turns for every worker;
  in each turn every worker is scheduled against another worker, and that worker is
  scheduled against it in the same turn; and any two distinct workers meet in exactly one
  turn. As the schedule of a turn is a pairing, no worker exchanges with two peers in the
  same turn.
\<close>

theorem league_calendar:
  assumes "even Nmpi" and "2 \<le> Nmpi"
  shows "\<exists>calendar. CreateLeagueCalendar Nmpi = Inr calendar \<and> length calendar = Nmpi \<and>
     (\<forall>rank<Nmpi. length (my_matches calendar rank) = Nmpi - 1) \<and>
     (\<forall>iturn<Nmpi - 1. \<forall>x<Nmpi.
        my_matches calendar x ! iturn < Nmpi \<and>
        my_matches calendar x ! iturn \<noteq> x \<and>
        my_matches calendar (my_matches calendar x ! iturn) ! iturn = x) \<and>
     (\<forall>x<Nmpi. \<forall>y<Nmpi. x \<noteq> y \<longrightarrow>
        (\<exists>!iturn. iturn < Nmpi - 1 \<and> my_matches calendar x ! iturn = y))"
proof -
  define M where "M = Nmpi - 1"
  define cal where
    "cal = fold (calendar_turn Nmpi) [0..<M] (replicate Nmpi (replicate M 0))"
  have oddM: "odd M" using assms by (simp add: M_def)
  have NM: "Nmpi = M + 1" using assms(2) by (simp add: M_def)
  have c: "CreateLeagueCalendar Nmpi = Inr cal"
    using assms(2) by (simp add: CreateLeagueCalendar_def Let_def cal_def M_def)
  have A: "shape Nmpi cal" and B: "\<And>t x. t < M \<Longrightarrow> x < Nmpi \<Longrightarrow> cal ! x ! t = opponent M t x"
    using calendar_all_turns[OF assms, of M] by (simp_all add: cal_def M_def)
  have len: "length cal = Nmpi" and rows: "\<And>x. x < Nmpi \<Longrightarrow> length (cal ! x) = M"
    using A by (simp_all add: shape_def M_def)
  have p1: "\<forall>rank<Nmpi. length (my_matches cal rank) = Nmpi - 1"
    using rows by (simp add: my_matches_def M_def)
  have p2: "\<forall>iturn<Nmpi - 1. \<forall>x<Nmpi.
        my_matches cal x ! iturn < Nmpi \<and>
        my_matches cal x ! iturn \<noteq> x \<and>
        my_matches cal (my_matches cal x ! iturn) ! iturn = x"
  proof (intro allI impI)
    fix t x assume t: "t < Nmpi - 1" and x: "x < Nmpi"
    have tM: "t < M" using t by (simp add: M_def)
    have xM: "x \<le> M" using x NM by simp
    have o: "cal ! x ! t = opponent M t x" using B tM x by simp
    have oN: "opponent M t x < Nmpi" using opponent_le[OF tM xM] NM by simp
    have "cal ! (opponent M t x) ! t = opponent M t (opponent M t x)" using B tM oN by simp
    then have "cal ! (opponent M t x) ! t = x" using opponent_invol[OF oddM tM xM] by simp
    then show "my_matches cal x ! t < Nmpi \<and> my_matches cal x ! t \<noteq> x \<and>
        my_matches cal (my_matches cal x ! t) ! t = x"
      using o oN opponent_neq[OF oddM tM xM] by (simp add: my_matches_def)
  qed
  have p3: "\<forall>x<Nmpi. \<forall>y<Nmpi. x \<noteq> y \<longrightarrow>
        (\<exists>!iturn. iturn < Nmpi - 1 \<and> my_matches cal x ! iturn = y)"
  proof (intro allI impI)
    fix x y assume x: "x < Nmpi" and y: "y < Nmpi" and xy: "x \<noteq> y"
    have xM: "x \<le> M" and yM: "y \<le> M" using x y NM by simp_all
    from opponent_meets[OF oddM xM yM xy] obtain t where
      t: "t < M" "opponent M t x = y" by blast
    show "\<exists>!iturn. iturn < Nmpi - 1 \<and> my_matches cal x ! iturn = y"
    proof (rule ex1I[of _ t])
      show "t < Nmpi - 1 \<and> my_matches cal x ! t = y"
        using t B[OF t(1) x] by (simp add: my_matches_def M_def)
    next
      fix s assume s: "s < Nmpi - 1 \<and> my_matches cal x ! s = y"
      then have sM: "s < M" by (simp add: M_def)
      have "opponent M s x = y" using s B[OF sM x] by (simp add: my_matches_def)
      then have "opponent M s x = opponent M t x" using t(2) by simp
      then show "s = t" using opponent_unique[OF oddM sM t(1) xM] by simp
    qed
  qed
  show ?thesis using c len p1 p2 p3 by blast
qed

lemma calendar_4:
  "CreateLeagueCalendar 4 = Inr [[3, 2, 1], [2, 3, 0], [1, 0, 3], [0, 1, 2]]"
  by code_simp

theorem league_calendar_witness:
  "even (4::nat) \<and> (2::nat) \<le> 4 \<and>
   CreateLeagueCalendar 4 = Inr [[3, 2, 1], [2, 3, 0], [1, 0, 3], [0, 1, 2]] \<and>
   (\<exists>calendar. CreateLeagueCalendar 4 = Inr calendar \<and> length calendar = 4 \<and>
     (\<forall>rank<4. length (my_matches calendar rank) = 4 - 1) \<and>
     (\<forall>iturn<4 - 1. \<forall>x<4.
        my_matches calendar x ! iturn < 4 \<and>
        my_matches calendar x ! iturn \<noteq> x \<and>
        my_matches calendar (my_matches calendar x ! iturn) ! iturn = x) \<and>
     (\<forall>x<4. \<forall>y<4. x \<noteq> y \<longrightarrow>
        (\<exists>!iturn. iturn < 4 - 1 \<and> my_matches calendar x ! iturn = y)))"
proof -
  have h1: "even (4::nat)" and h2: "(2::nat) \<le> 4" by simp_all
  show ?thesis
    by (intro conjI h1 h2 calendar_4 league_calendar[OF h1 h2])
qed

end
